theory Spec2Isabelle
  imports Main
begin

section \<open>Values, errors and options\<close>

text \<open>
  The coercion routine \<open>synapse\<close> takes a value of TypeScript type \<open>any\<close> and returns one.
  The repository holds two versions of the routine: \<^verbatim>\<open>src/src/index.ts\<close> (embedded below with
  the suffix \<open>_index\<close>) and \<^verbatim>\<open>src/unnamed/part_000\<close> (suffix \<open>_part\<close>), which adds
  \<open>cleanObject\<close>, a case-insensitive literal table and a console warning.

  A string is a list of code units. \<open>char\<close> has 256 values, so the model covers the strings
  whose code units are below 256 (Basic Latin and Latin-1); on these a code point is one
  code unit.
\<close>

datatype number =
    NaN
  | PosInfinity
  | NegInfinity
  | Finite int int  \<comment> \<open>\<open>Finite m e\<close> is the number written \<open>m * 10^e\<close>\<close>

datatype jsvalue =
    JUndefined
  | JNull
  | JBoolean bool
  | JNumber number
  | JBigInt int
  | JString string
  | JArray "jsvalue list"
  | JObject "(string \<times> jsvalue) list"  \<comment> \<open>own enumerable properties, in \<open>Object.keys\<close> order\<close>
  | JFunction nat  \<comment> \<open>a function, by identity\<close>
  | JSymbol nat    \<comment> \<open>a symbol, by identity\<close>

datatype error =
    PossiblePrototypePollution  \<comment> \<open>\<^verbatim>\<open>new Error("[synapse] Possible prototype pollution")\<close>\<close>
  | InvalidJSON                 \<comment> \<open>\<^verbatim>\<open>new SyntaxError("[synapse] Invalid JSON")\<close>\<close>
  | InvalidBigInt string        \<comment> \<open>\<^verbatim>\<open>new SyntaxError(`[synapse] Invalid BigInt: ${_value}`)\<close>\<close>
  | RuntimeSyntaxError          \<comment> \<open>the \<open>SyntaxError\<close> thrown by the runtime's \<open>JSON.parse\<close> or \<open>BigInt\<close>\<close>

record Options =
  strict :: "bool option"  \<comment> \<open>\<^verbatim>\<open>strict?: boolean\<close>: \<open>None\<close> when the field is absent\<close>

definition is_strict :: "Options \<Rightarrow> bool" where
  \<comment> \<open>the truthiness test \<^verbatim>\<open>if (options.strict)\<close>\<close>
  "is_strict options = (strict options = Some True)"

text \<open>
  \<open>JSON.parse\<close> and \<open>BigInt\<close> belong to the JavaScript runtime, not to the repository. The
  routine takes them as a parameter; \<open>None\<close> stands for the exception they throw.
\<close>

record runtime =
  JSON_parse :: "string \<Rightarrow> jsvalue option"
  BigInt :: "string \<Rightarrow> int option"

section \<open>String operations of the runtime\<close>

abbreviation BSL :: char where
  "BSL \<equiv> CHR 0x5C"

definition is_WhiteSpace :: "char \<Rightarrow> bool" where
  \<comment> \<open>\<open>WhiteSpace\<close> and \<open>LineTerminator\<close> of ECMA-262 below 256: TAB, LF, VT, FF, CR, SP, NBSP;
      the set removed by \<open>trim\<close> and matched by \<^verbatim>\<open>\s\<close>\<close>
  "is_WhiteSpace c =
     (c \<in> set [CHR 0x09, CHR 0x0A, CHR 0x0B, CHR 0x0C, CHR 0x0D, CHR 0x20, CHR 0xA0])"

definition is_digit :: "char \<Rightarrow> bool" where
  \<comment> \<open>\<^verbatim>\<open>\d\<close>\<close>
  "is_digit c = (c \<in> set ''0123456789'')"

definition trim :: "string \<Rightarrow> string" where
  "trim s = rev (dropWhile is_WhiteSpace (rev (dropWhile is_WhiteSpace s)))"

definition lower_char :: "char \<Rightarrow> char" where
  \<comment> \<open>the simple lower-case mapping below 256: A-Z and the Latin-1 capitals except the
      multiplication sign 0xD7\<close>
  "lower_char c =
     (let n = (of_char c :: nat) in
      if (65 \<le> n \<and> n \<le> 90) \<or> (192 \<le> n \<and> n \<le> 222 \<and> n \<noteq> 215)
      then char_of (n + 32) else c)"

definition toLowerCase :: "string \<Rightarrow> string" where
  "toLowerCase s = map lower_char s"

definition codePointAt :: "string \<Rightarrow> int \<Rightarrow> nat option" where
  \<comment> \<open>\<open>undefined\<close> (here \<open>None\<close>) outside the string\<close>
  "codePointAt s i =
     (if 0 \<le> i \<and> i < int (length s) then Some (of_char (s ! nat i)) else None)"

definition charAt :: "string \<Rightarrow> nat \<Rightarrow> char option" where
  \<comment> \<open>the index expression \<^verbatim>\<open>_value[i]\<close>: \<open>undefined\<close> (here \<open>None\<close>) outside the string\<close>
  "charAt s i = (if i < length s then Some (s ! i) else None)"

definition slice :: "string \<Rightarrow> int \<Rightarrow> int \<Rightarrow> string" where
  \<comment> \<open>\<open>String.prototype.slice\<close>: a negative index counts from the end, both are clamped\<close>
  "slice s start end' =
     (let len = int (length s);
          from = (if start < 0 then max (len + start) 0 else min start len);
          to = (if end' < 0 then max (len + end') 0 else min end' len)
      in take (nat (to - from)) (drop (nat from) s))"

definition endsWith :: "string \<Rightarrow> string \<Rightarrow> bool" where
  "endsWith s x = (length x \<le> length s \<and> drop (length s - length x) s = x)"

section \<open>The regular expressions of the source\<close>

text \<open>
  Every pattern of the source is a sequence of groups, each an alternation of literal
  texts, followed by \<^verbatim>\<open>\s*:\<close>. \<open>match_seq\<close> returns the remainders of the input after
  every way of matching the sequence at the start of the input.
\<close>

definition match_alts :: "string list \<Rightarrow> string \<Rightarrow> string list" where
  "match_alts alts s =
     map (\<lambda>a. drop (length a) s) (filter (\<lambda>a. take (length a) s = a) alts)"

fun match_seq :: "string list list \<Rightarrow> string \<Rightarrow> string list" where
  "match_seq [] s = [s]"
| "match_seq (alts # groups) s = concat (map (match_seq groups) (match_alts alts s))"

definition spaces_colon :: "string \<Rightarrow> bool" where
  \<comment> \<open>\<^verbatim>\<open>\s*:\<close> at the start of the input\<close>
  "spaces_colon s =
     (case dropWhile is_WhiteSpace s of [] \<Rightarrow> False | c # _ \<Rightarrow> c = CHR '':'')"

fun search :: "(string \<Rightarrow> bool) \<Rightarrow> string \<Rightarrow> bool" where
  \<comment> \<open>an unanchored pattern is tried at every position\<close>
  "search P [] = P []"
| "search P (c # cs) = (P (c # cs) \<or> search P cs)"

definition esc :: "string \<Rightarrow> string" where
  \<comment> \<open>a backslash, the letter u and four hexadecimal digits\<close>
  "esc h = BSL # CHR ''u'' # h"

definition suspectProto_groups :: "string list list" where
  \<open>suspectProto_groups =
     [[''"''],
      [''_'', esc ''005F'', esc ''005f''], [''_'', esc ''005F'', esc ''005f''],
      [''p'', esc ''0070''],
      [''r'', esc ''0072''],
      [''o'', esc ''006F'', esc ''006f''],
      [''t'', esc ''0074''],
      [''o'', esc ''006F'', esc ''006f''],
      [''_'', esc ''005F'', esc ''005f''], [''_'', esc ''005F'', esc ''005f''],
      [''"'']]\<close>

definition suspectConstructor_groups :: "string list list" where
  \<open>suspectConstructor_groups =
     [[''"''],
      [''c'', esc ''0063''],
      [''o'', esc ''006F'', esc ''006f''],
      [''n'', esc ''006E'', esc ''006e''],
      [''s'', esc ''0073''],
      [''t'', esc ''0074''],
      [''r'', esc ''0072''],
      [''u'', esc ''0075''],
      [''c'', esc ''0063''],
      [''t'', esc ''0074''],
      [''o'', esc ''006F'', esc ''006f''],
      [''r'', esc ''0072''],
      [''"'']]\<close>

definition suspectProtoRx_test :: "string \<Rightarrow> bool" where
  "suspectProtoRx_test s =
     search (\<lambda>t. list_ex spaces_colon (match_seq suspectProto_groups t)) s"

definition suspectConstructorRx_test :: "string \<Rightarrow> bool" where
  "suspectConstructorRx_test s =
     search (\<lambda>t. list_ex spaces_colon (match_seq suspectConstructor_groups t)) s"

definition opt_minus :: "string \<Rightarrow> string" where
  \<comment> \<open>\<^verbatim>\<open>-?\<close> before a pattern that cannot start with a minus sign\<close>
  "opt_minus s = (case s of c # cs \<Rightarrow> if c = CHR ''-'' then cs else s | [] \<Rightarrow> s)"

definition leadingDigitRegex_test :: "string \<Rightarrow> bool" where
  \<comment> \<open>\<^verbatim>\<open>/^\s*-?\d/\<close>\<close>
  "leadingDigitRegex_test s =
     (case opt_minus (dropWhile is_WhiteSpace s) of [] \<Rightarrow> False | c # _ \<Rightarrow> is_digit c)"

definition BIGINT_REGEX_test :: "string \<Rightarrow> bool" where
  \<comment> \<open>\<^verbatim>\<open>/^-?\d+n$/i\<close>\<close>
  "BIGINT_REGEX_test s =
     (let r = opt_minus s; rest = dropWhile is_digit r
      in takeWhile is_digit r \<noteq> [] \<and> (rest = ''n'' \<or> rest = ''N''))"

section \<open>The table of known values\<close>

definition KNOWN_VALUES :: "(string \<times> jsvalue) list" where
  "KNOWN_VALUES =
     [(''true'', JBoolean True),
      (''false'', JBoolean False),
      (''null'', JUndefined),
      (''undefined'', JUndefined),
      (''NaN'', JNumber NaN),
      (''Infinity'', JNumber PosInfinity),
      (''-Infinity'', JNumber NegInfinity)]"

definition Map_get :: "(string \<times> jsvalue) list \<Rightarrow> string \<Rightarrow> jsvalue" where
  \<comment> \<open>\<open>Map.prototype.get\<close>: \<open>undefined\<close> for a key that is not in the map\<close>
  "Map_get m k = (case map_of m k of None \<Rightarrow> JUndefined | Some v \<Rightarrow> v)"

section \<open>The runtime's parsers\<close>

text \<open>
  A model of \<open>JSON.parse\<close> (ECMA-262, 25.5.1) without a reviver, for the examples: a lexer
  for the JSON tokens, then a parser that keeps the open arrays and objects on a stack.
  A number is kept as the decimal it is written as (rounding to a double and the sign of
  zero are left out); the properties of an object are kept in the order of their first
  occurrence, a repeated key taking its last value; an escape \<^verbatim>\<open>\uXXXX\<close> of a code unit
  above 255 is outside \<open>char\<close> and is refused.
\<close>

datatype token =
    LBrace | RBrace | LBracket | RBracket | Colon | Comma
  | TString string | TNumber number | TTrue | TFalse | TNull

definition hex_val :: "char \<Rightarrow> nat option" where
  "hex_val c =
     (let n = (of_char c :: nat) in
      if 48 \<le> n \<and> n \<le> 57 then Some (n - 48)
      else if 65 \<le> n \<and> n \<le> 70 then Some (n - 55)
      else if 97 \<le> n \<and> n \<le> 102 then Some (n - 87)
      else None)"

definition hex4 :: "char \<Rightarrow> char \<Rightarrow> char \<Rightarrow> char \<Rightarrow> nat option" where
  "hex4 a b c d =
     (case (hex_val a, hex_val b, hex_val c, hex_val d) of
        (Some w, Some x, Some y, Some z) \<Rightarrow> Some (((w * 16 + x) * 16 + y) * 16 + z)
      | _ \<Rightarrow> None)"

definition simple_escape :: "char \<Rightarrow> char option" where
  \<open>simple_escape e =
     (if e = CHR ''"'' then Some (CHR ''"'')
      else if e = BSL then Some BSL
      else if e = CHR ''/'' then Some (CHR ''/'')
      else if e = CHR ''b'' then Some (CHR 0x08)
      else if e = CHR ''f'' then Some (CHR 0x0C)
      else if e = CHR ''n'' then Some (CHR 0x0A)
      else if e = CHR ''r'' then Some (CHR 0x0D)
      else if e = CHR ''t'' then Some (CHR 0x09)
      else None)\<close>

definition push_char :: "char \<Rightarrow> (string \<times> string) option \<Rightarrow> (string \<times> string) option" where
  "push_char c r = (case r of None \<Rightarrow> None | Some (str, rest) \<Rightarrow> Some (c # str, rest))"

fun lex_string :: "string \<Rightarrow> (string \<times> string) option" where
  \<comment> \<open>the text after an opening quote: the string's value and the text after its closing quote\<close>
  \<open>lex_string [] = None\<close>
| \<open>lex_string (c # cs) =
     (if c = CHR ''"'' then Some ([], cs)
      else if c = BSL then
        (case cs of
           [] \<Rightarrow> None
         | e # es \<Rightarrow>
             if e = CHR ''u'' then
               (case es of
                  h1 # h2 # h3 # h4 # rest \<Rightarrow>
                    (case hex4 h1 h2 h3 h4 of
                       None \<Rightarrow> None
                     | Some n \<Rightarrow> if n < 256 then push_char (char_of n) (lex_string rest) else None)
                | _ \<Rightarrow> None)
             else
               (case simple_escape e of
                  None \<Rightarrow> None
                | Some x \<Rightarrow> push_char x (lex_string es)))
      else if (of_char c :: nat) < 32 then None
      else push_char c (lex_string cs))\<close>

definition digit_val :: "char \<Rightarrow> nat" where
  "digit_val c = of_char c - 48"

definition dec_val :: "string \<Rightarrow> nat" where
  "dec_val ds = foldl (\<lambda>a c. 10 * a + digit_val c) 0 ds"

definition lex_frac :: "string \<Rightarrow> (string \<times> string) option" where
  \<comment> \<open>an optional fraction: its digits and the text after it\<close>
  "lex_frac s =
     (case s of
        [] \<Rightarrow> Some ([], [])
      | c # r \<Rightarrow>
          if c = CHR ''.'' then
            (if takeWhile is_digit r = [] then None
             else Some (takeWhile is_digit r, dropWhile is_digit r))
          else Some ([], s))"

definition lex_exp :: "string \<Rightarrow> (int \<times> string) option" where
  \<comment> \<open>an optional exponent: its value and the text after it\<close>
  "lex_exp s =
     (case s of
        [] \<Rightarrow> Some (0, [])
      | c # r \<Rightarrow>
          if c = CHR ''e'' \<or> c = CHR ''E'' then
            (let sgn = (if take 1 r = ''-'' then - 1 else 1);
                 r' = (if take 1 r = ''-'' \<or> take 1 r = ''+'' then drop 1 r else r)
             in if takeWhile is_digit r' = [] then None
                else Some (sgn * int (dec_val (takeWhile is_digit r')), dropWhile is_digit r'))
          else Some (0, s))"

definition lex_number :: "string \<Rightarrow> (number \<times> string) option" where
  "lex_number s =
     (let sgn = (if take 1 s = ''-'' then - 1 else 1);
          s1 = opt_minus s;
          ip = takeWhile is_digit s1
      in if ip = [] \<or> (1 < length ip \<and> take 1 ip = ''0'') then None
         else
           (case lex_frac (dropWhile is_digit s1) of
              None \<Rightarrow> None
            | Some (fp, s2) \<Rightarrow>
                (case lex_exp s2 of
                   None \<Rightarrow> None
                 | Some (ex, s3) \<Rightarrow>
                     Some (Finite (sgn * int (dec_val (ip @ fp))) (ex - int (length fp)), s3))))"

definition push_token :: "token \<Rightarrow> token list option \<Rightarrow> token list option" where
  "push_token t r = (case r of None \<Rightarrow> None | Some ts \<Rightarrow> Some (t # ts))"

definition is_json_space :: "char \<Rightarrow> bool" where
  "is_json_space c = (c \<in> set [CHR 0x09, CHR 0x0A, CHR 0x0D, CHR 0x20])"

lemma lex_string_shorter: "lex_string s = Some (str, rest) \<Longrightarrow> length rest < length s"
proof (induction s arbitrary: str rest rule: lex_string.induct)
  case 1
  then show ?case by simp
next
  case (2 c cs)
  then show ?case
    by (fastforce simp: push_char_def
        split: if_splits list.splits option.splits prod.splits)
qed

lemma length_opt_minus: "length (opt_minus s) \<le> length s"
  by (simp add: opt_minus_def split: list.splits)

lemma lex_frac_shorter: "lex_frac s = Some (fp, rest) \<Longrightarrow> length rest \<le> length s"
  by (auto simp: lex_frac_def length_dropWhile_le le_SucI split: list.splits if_splits)

lemma lex_exp_shorter: "lex_exp s = Some (ex, rest) \<Longrightarrow> length rest \<le> length s"
proof (cases s)
  case Nil
  assume "lex_exp s = Some (ex, rest)"
  with Nil show ?thesis by (simp add: lex_exp_def)
next
  case (Cons c r)
  assume a: "lex_exp s = Some (ex, rest)"
  have d: "length (dropWhile is_digit t) \<le> length t" for t
    by (rule length_dropWhile_le)
  from a Cons show ?thesis
    using d [of r] d [of "drop 1 r"]
    by (auto simp: lex_exp_def Let_def split: if_splits)
qed

lemma lex_number_shorter:
  assumes "lex_number s = Some (n, rest)"
  shows "length rest < length s"
proof -
  let ?s1 = "opt_minus s"
  from assms have ip: "takeWhile is_digit ?s1 \<noteq> []"
    by (auto simp: lex_number_def Let_def split: if_splits)
  from assms obtain fp s2 ex where
    f: "lex_frac (dropWhile is_digit ?s1) = Some (fp, s2)" and e: "lex_exp s2 = Some (ex, rest)"
    by (auto simp: lex_number_def Let_def split: if_splits option.splits)
  have "length (takeWhile is_digit ?s1) + length (dropWhile is_digit ?s1) = length ?s1"
    by (metis length_append takeWhile_dropWhile_id)
  with ip have "length (dropWhile is_digit ?s1) < length ?s1"
    by (cases "takeWhile is_digit ?s1") auto
  with lex_frac_shorter [OF f] lex_exp_shorter [OF e] length_opt_minus [of s]
  show ?thesis by linarith
qed

function lex :: "string \<Rightarrow> token list option" where
  \<open>lex [] = Some []\<close>
| \<open>lex (c # cs) =
     (if is_json_space c then lex cs
      else if c = CHR ''{'' then push_token LBrace (lex cs)
      else if c = CHR ''}'' then push_token RBrace (lex cs)
      else if c = CHR ''['' then push_token LBracket (lex cs)
      else if c = CHR '']'' then push_token RBracket (lex cs)
      else if c = CHR '':'' then push_token Colon (lex cs)
      else if c = CHR '','' then push_token Comma (lex cs)
      else if c = CHR ''"'' then
        (case lex_string cs of
           None \<Rightarrow> None
         | Some (str, rest) \<Rightarrow> push_token (TString str) (lex rest))
      else if c = CHR ''-'' \<or> is_digit c then
        (case lex_number (c # cs) of
           None \<Rightarrow> None
         | Some (n, rest) \<Rightarrow> push_token (TNumber n) (lex rest))
      else if take 4 (c # cs) = ''true'' then push_token TTrue (lex (drop 3 cs))
      else if take 5 (c # cs) = ''false'' then push_token TFalse (lex (drop 4 cs))
      else if take 4 (c # cs) = ''null'' then push_token TNull (lex (drop 3 cs))
      else None)\<close>
  by pat_completeness auto
termination
proof (relation "measure length")
  show "wf (measure length)" by simp
next
  fix c cs x2 x y
  assume "lex_string cs = Some x2" "(x, y) = x2"
  then show "(y, c # cs) \<in> measure length"
    using lex_string_shorter [of cs x y] by simp
next
  fix c cs x2 x y
  assume "lex_number (c # cs) = Some x2" "(x, y) = x2"
  then show "(y, c # cs) \<in> measure length"
    using lex_number_shorter [of "c # cs" x y] by simp
qed simp_all

datatype frame =
    ArrayFrame "jsvalue list"  \<comment> \<open>an open array: its elements so far, last first\<close>
  | ObjectFrame "(string \<times> jsvalue) list" string  \<comment> \<open>an open object: its properties so far, and the key whose value is being read\<close>

fun set_property :: "(string \<times> jsvalue) list \<Rightarrow> string \<Rightarrow> jsvalue \<Rightarrow> (string \<times> jsvalue) list" where
  "set_property [] k v = [(k, v)]"
| "set_property (p # ps) k v = (if fst p = k then (k, v) # ps else p # set_property ps k v)"

definition scalar :: "token \<Rightarrow> jsvalue option" where
  "scalar t =
     (case t of
        TString s \<Rightarrow> Some (JString s)
      | TNumber n \<Rightarrow> Some (JNumber n)
      | TTrue \<Rightarrow> Some (JBoolean True)
      | TFalse \<Rightarrow> Some (JBoolean False)
      | TNull \<Rightarrow> Some JNull
      | _ \<Rightarrow> None)"

fun parse_value :: "frame list \<Rightarrow> token list \<Rightarrow> jsvalue option"
  and parse_after :: "frame list \<Rightarrow> jsvalue \<Rightarrow> token list \<Rightarrow> jsvalue option"
  and parse_key :: "frame list \<Rightarrow> (string \<times> jsvalue) list \<Rightarrow> token list \<Rightarrow> jsvalue option"
where
  "parse_value st [] = None"
| "parse_value st (t # ts) =
     (if t = LBracket then
        (if take 1 ts = [RBracket] then parse_after st (JArray []) (drop 1 ts)
         else parse_value (ArrayFrame [] # st) ts)
      else if t = LBrace then
        (if take 1 ts = [RBrace] then parse_after st (JObject []) (drop 1 ts)
         else parse_key st [] ts)
      else
        (case scalar t of
           None \<Rightarrow> None
         | Some v \<Rightarrow> parse_after st v ts))"
| "parse_after [] v ts = (if ts = [] then Some v else None)"
| "parse_after (f # st) v [] = None"
| "parse_after (ArrayFrame acc # st) v (t # ts) =
     (if t = Comma then parse_value (ArrayFrame (v # acc) # st) ts
      else if t = RBracket then parse_after st (JArray (rev (v # acc))) ts
      else None)"
| "parse_after (ObjectFrame props k # st) v (t # ts) =
     (if t = Comma then parse_key st (set_property props k v) ts
      else if t = RBrace then parse_after st (JObject (set_property props k v)) ts
      else None)"
| "parse_key st props (TString k # Colon # ts) = parse_value (ObjectFrame props k # st) ts"
| "parse_key st props ts = None"

definition ecma_JSON_parse :: "string \<Rightarrow> jsvalue option" where
  "ecma_JSON_parse text =
     (case lex text of None \<Rightarrow> None | Some ts \<Rightarrow> parse_value [] ts)"

text \<open>
  A model of \<open>BigInt\<close> applied to a string (\<open>StringToBigInt\<close>, ECMA-262, 7.1.14): white space
  around the text is dropped, the empty text is zero, a decimal literal may carry a sign,
  a literal with a radix prefix may not.
\<close>

definition digits_val :: "nat \<Rightarrow> string \<Rightarrow> nat option" where
  "digits_val base ds =
     (if ds \<noteq> [] \<and> list_all (\<lambda>c. case hex_val c of None \<Rightarrow> False | Some d \<Rightarrow> d < base) ds
      then Some (foldl (\<lambda>a c. base * a + (case hex_val c of None \<Rightarrow> 0 | Some d \<Rightarrow> d)) 0 ds)
      else None)"

definition ecma_BigInt :: "string \<Rightarrow> int option" where
  "ecma_BigInt text =
     (let s = trim text in
      if s = [] then Some 0
      else if take 2 s = ''0x'' \<or> take 2 s = ''0X'' then map_option int (digits_val 16 (drop 2 s))
      else if take 2 s = ''0o'' \<or> take 2 s = ''0O'' then map_option int (digits_val 8 (drop 2 s))
      else if take 2 s = ''0b'' \<or> take 2 s = ''0B'' then map_option int (digits_val 2 (drop 2 s))
      else if take 1 s = ''-'' then map_option (\<lambda>n. - int n) (digits_val 10 (drop 1 s))
      else if take 1 s = ''+'' then map_option int (digits_val 10 (drop 1 s))
      else map_option int (digits_val 10 s))"

definition ecma :: runtime where
  "ecma = \<lparr>JSON_parse = ecma_JSON_parse, BigInt = ecma_BigInt\<rparr>"

section \<open>The coercion routine\<close>

definition try_catch :: "error + jsvalue \<Rightarrow> (error \<Rightarrow> error + jsvalue) \<Rightarrow> error + jsvalue" where
  \<comment> \<open>\<^verbatim>\<open>try { body } catch (error) { handler }\<close>\<close>
  "try_catch body handler = (case body of Inl e \<Rightarrow> handler e | Inr v \<Rightarrow> Inr v)"

definition call_JSON_parse :: "runtime \<Rightarrow> string \<Rightarrow> error + jsvalue" where
  "call_JSON_parse rt text =
     (case JSON_parse rt text of None \<Rightarrow> Inl RuntimeSyntaxError | Some v \<Rightarrow> Inr v)"

definition call_BigInt :: "runtime \<Rightarrow> string \<Rightarrow> error + jsvalue" where
  "call_BigInt rt text =
     (case BigInt rt text of None \<Rightarrow> Inl RuntimeSyntaxError | Some n \<Rightarrow> Inr (JBigInt n))"

subsection \<open>\<^verbatim>\<open>src/src/index.ts\<close>\<close>

definition synapse_index :: "runtime \<Rightarrow> jsvalue \<Rightarrow> Options \<Rightarrow> error + jsvalue" where
  "synapse_index rt value options =
     (case value of
        JString text \<Rightarrow>
          (let tvalue = trim text;  \<comment> \<open>\<open>_value\<close> in the source\<close>
               len = length tvalue;
               knownValue = Map_get KNOWN_VALUES tvalue
           in
           if len \<le> 10 \<and> knownValue \<noteq> JUndefined then Inr knownValue
           else if len = 2 \<and> codePointAt tvalue 0 = Some 34 then Inr (JString [])
           else if codePointAt tvalue 0 = Some 34 \<and> codePointAt tvalue (int len - 1) = Some 34
           then Inr (JString (slice tvalue 1 (- 1)))
           else if BIGINT_REGEX_test tvalue then
             try_catch (call_BigInt rt (slice tvalue 0 (- 1)))
               (\<lambda>_. if is_strict options then Inl (InvalidBigInt tvalue) else Inr value)
           else
             (let firstChar = codePointAt tvalue 0 in
              if firstChar = Some 91 \<or> firstChar = Some 123 \<or> firstChar = Some 34
                 \<or> leadingDigitRegex_test tvalue
              then
                try_catch
                  (if is_strict options \<and> (suspectProtoRx_test text \<or> suspectConstructorRx_test text)
                   then Inl PossiblePrototypePollution
                   else call_JSON_parse rt text)
                  (\<lambda>error. if is_strict options then Inl error else Inr value)
              else if is_strict options then Inl InvalidJSON
              else Inr value))
      | _ \<Rightarrow> Inr value)"

definition safesynapse_index :: "runtime \<Rightarrow> jsvalue \<Rightarrow> Options \<Rightarrow> error + jsvalue" where
  "safesynapse_index rt value options = synapse_index rt value (options\<lparr>strict := Some True\<rparr>)"

subsection \<open>\<^verbatim>\<open>src/unnamed/part_000\<close>\<close>

fun cleanObject :: "jsvalue \<Rightarrow> jsvalue"
  and cleanItems :: "jsvalue list \<Rightarrow> jsvalue list"
  and cleanKeys :: "(string \<times> jsvalue) list \<Rightarrow> (string \<times> jsvalue) list"
where
  "cleanObject (JArray items) = JArray (cleanItems items)"
| "cleanObject (JObject props) = JObject (cleanKeys props)"
| "cleanObject obj = obj"
| "cleanItems [] = []"
| "cleanItems (item # items) = cleanObject item # cleanItems items"
| "cleanKeys [] = []"
| "cleanKeys (p # props) =
     (if fst p = ''__proto__'' then cleanKeys props
      else (fst p, cleanObject (snd p)) # cleanKeys props)"

definition checkPrototypePollution :: "string \<Rightarrow> bool" where
  "checkPrototypePollution value = (suspectProtoRx_test value \<or> suspectConstructorRx_test value)"

text \<open>
  This version writes to the console; the result carries the lines written by
  \<open>console.warn\<close> next to the value returned or the error thrown.
\<close>

definition synapse_part :: "runtime \<Rightarrow> jsvalue \<Rightarrow> Options \<Rightarrow> string list \<times> (error + jsvalue)" where
  \<open>synapse_part rt value options =
     (case value of
        JString text \<Rightarrow>
          (let tvalue = trim text;  \<comment> \<open>\<open>_value\<close> in the source\<close>
               len = length tvalue;
               lowerValue = toLowerCase tvalue;
               knownValue = Map_get KNOWN_VALUES lowerValue
           in
           if len \<le> 10 \<and>
              (knownValue \<noteq> JUndefined \<or> lowerValue = ''null'' \<or> lowerValue = ''undefined'')
           then ([], Inr knownValue)
           else if charAt tvalue 0 = Some (CHR ''"'') then
             (if is_strict options \<and> (\<not> endsWith tvalue ''"'' \<or> len < 2)
              then ([], Inl InvalidJSON)
              else if len = 2 \<and> charAt tvalue 1 = Some (CHR ''"'') then ([], Inr (JString []))
              else
                ([], try_catch (call_JSON_parse rt tvalue)
                       (\<lambda>_. if is_strict options then Inl InvalidJSON else Inr value)))
           else if BIGINT_REGEX_test tvalue then
             ([], try_catch (call_BigInt rt (slice tvalue 0 (- 1)))
                    (\<lambda>_. if is_strict options then Inl (InvalidBigInt tvalue) else Inr value))
           else
             (let firstChar = charAt tvalue 0 in
              if firstChar = Some (CHR ''['') \<or> firstChar = Some (CHR ''{'')
                 \<or> firstChar = Some (CHR ''"'') \<or> leadingDigitRegex_test tvalue
              then
                (let suspect = checkPrototypePollution tvalue in
                 (if suspect then [''[synapse] Possible prototype pollution''] else [],
                  try_catch
                    (if suspect \<and> is_strict options then Inl PossiblePrototypePollution
                     else
                       (case call_JSON_parse rt tvalue of
                          Inl e \<Rightarrow> Inl e
                        | Inr parsed \<Rightarrow> Inr (cleanObject parsed)))
                    (\<lambda>error. if is_strict options then Inl error else Inr value)))
              else if is_strict options then ([], Inl InvalidJSON)
              else ([], Inr value)))
      | _ \<Rightarrow> ([], Inr value))\<close>

definition safesynapse_part :: "runtime \<Rightarrow> jsvalue \<Rightarrow> Options \<Rightarrow> string list \<times> (error + jsvalue)" where
  "safesynapse_part rt value options = synapse_part rt value (options\<lparr>strict := Some True\<rparr>)"

section \<open>The branch taken\<close>

text \<open>
  The gates of the routine, in the order of the source, as a function of the trimmed text
  alone: which step handles it. \<open>synapse_index_by_branch\<close> and \<open>synapse_part_by_branch\<close>
  below prove that the routine does, branch by branch, what its source says.
\<close>

datatype branch =
  KnownLiteral | EmptyQuoted | QuotedLiteral | BigIntLiteral | JSONCandidate | Fallback

definition branch_index :: "string \<Rightarrow> branch" where
  "branch_index tvalue =
     (let len = length tvalue; firstChar = codePointAt tvalue 0 in
      if len \<le> 10 \<and> Map_get KNOWN_VALUES tvalue \<noteq> JUndefined then KnownLiteral
      else if len = 2 \<and> codePointAt tvalue 0 = Some 34 then EmptyQuoted
      else if codePointAt tvalue 0 = Some 34 \<and> codePointAt tvalue (int len - 1) = Some 34
      then QuotedLiteral
      else if BIGINT_REGEX_test tvalue then BigIntLiteral
      else if firstChar = Some 91 \<or> firstChar = Some 123 \<or> firstChar = Some 34
              \<or> leadingDigitRegex_test tvalue
      then JSONCandidate
      else Fallback)"

definition branch_part :: "string \<Rightarrow> branch" where
  \<open>branch_part tvalue =
     (let len = length tvalue; lowerValue = toLowerCase tvalue; firstChar = charAt tvalue 0 in
      if len \<le> 10 \<and>
         (Map_get KNOWN_VALUES lowerValue \<noteq> JUndefined \<or> lowerValue = ''null''
          \<or> lowerValue = ''undefined'')
      then KnownLiteral
      else if charAt tvalue 0 = Some (CHR ''"'') then
        (if len = 2 \<and> charAt tvalue 1 = Some (CHR ''"'') then EmptyQuoted else QuotedLiteral)
      else if BIGINT_REGEX_test tvalue then BigIntLiteral
      else if firstChar = Some (CHR ''['') \<or> firstChar = Some (CHR ''{'')
              \<or> firstChar = Some (CHR ''"'') \<or> leadingDigitRegex_test tvalue
      then JSONCandidate
      else Fallback)\<close>

section \<open>The detection patterns in the words of the specification\<close>

text \<open>
  The specification describes the two patterns as recognising a JSON key spelled
  \<open>__proto__\<close> or \<open>constructor\<close>, each character written as it is or as an escape
  \<^verbatim>\<open>\uXXXX\<close> of its code with hexadecimal digits in either case, followed by optional white
  space and a colon. \<open>contains_key\<close> says so without reference to the patterns of the
  source; \<open>suspectProtoRx_iff\<close> and \<open>suspectConstructorRx_iff\<close> below prove that the
  patterns recognise exactly these texts.
\<close>

definition hex_digit_spellings :: "nat \<Rightarrow> string" where
  \<comment> \<open>the characters that write one hexadecimal digit: a letter in either case\<close>
  "hex_digit_spellings d =
     (if d < 10 then [char_of (48 + d)] else [char_of (55 + d), char_of (87 + d)])"

definition unicode_escapes :: "char \<Rightarrow> string list" where
  \<comment> \<open>the escapes \<^verbatim>\<open>\uXXXX\<close> of a character\<close>
  "unicode_escapes c =
     (let n = (of_char c :: nat) in
      concat (map (\<lambda>w. concat (map (\<lambda>x. concat (map (\<lambda>y. map (\<lambda>z. esc [w, x, y, z])
        (hex_digit_spellings (n mod 16)))
        (hex_digit_spellings (n div 16 mod 16))))
        (hex_digit_spellings (n div 256 mod 16))))
        (hex_digit_spellings (n div 4096 mod 16))))"

definition char_spellings :: "char \<Rightarrow> string list" where
  "char_spellings c = [c] # unicode_escapes c"

fun all_concats :: "string list list \<Rightarrow> string list" where
  \<comment> \<open>the texts made of one alternative of each group, in turn\<close>
  "all_concats [] = [[]]"
| "all_concats (alts # groups) =
     concat (map (\<lambda>a. map (\<lambda>r. a @ r) (all_concats groups)) alts)"

definition key_spellings :: "string \<Rightarrow> string list" where
  "key_spellings k = all_concats (map char_spellings k)"

definition contains_key :: "string \<Rightarrow> string \<Rightarrow> bool" where
  \<open>contains_key k text =
     (\<exists>before sp ws after. sp \<in> set (key_spellings k) \<and> list_all is_WhiteSpace ws
        \<and> text = before @ ''"'' @ sp @ ''"'' @ ws @ '':'' @ after)\<close>

section \<open>Properties of a returned structure\<close>

fun proto_free :: "jsvalue \<Rightarrow> bool"
  and proto_free_items :: "jsvalue list \<Rightarrow> bool"
  and proto_free_props :: "(string \<times> jsvalue) list \<Rightarrow> bool"
where
  \<comment> \<open>no object of the structure has a key named \<open>__proto__\<close>, at any depth\<close>
  "proto_free (JArray items) = proto_free_items items"
| "proto_free (JObject props) = proto_free_props props"
| "proto_free v = True"
| "proto_free_items [] = True"
| "proto_free_items (item # items) = (proto_free item \<and> proto_free_items items)"
| "proto_free_props [] = True"
| "proto_free_props (p # props) =
     (fst p \<noteq> ''__proto__'' \<and> proto_free (snd p) \<and> proto_free_props props)"

section \<open>Auxiliary facts\<close>

lemma of_char_eq_34: "(of_char c = (34::nat)) = (c = CHR 0x22)"
proof
  assume "of_char c = (34::nat)"
  then have "c = char_of (34::nat)" by (metis char_of_char)
  also have "char_of (34::nat) = CHR 0x22" by code_simp
  finally show "c = CHR 0x22" .
qed simp

lemma codePointAt_0_quote:
  "(codePointAt t 0 = Some 34) = (t \<noteq> [] \<and> hd t = CHR 0x22)"
  by (cases t) (simp_all add: codePointAt_def of_char_eq_34)

lemma codePointAt_last_quote:
  "t \<noteq> [] \<Longrightarrow> (codePointAt t (int (length t) - 1) = Some 34) = (last t = CHR 0x22)"
  by (simp add: codePointAt_def of_char_eq_34 last_conv_nth nat_diff_distrib')

lemma known_miss_quote: "hd t = CHR 0x22 \<Longrightarrow> Map_get KNOWN_VALUES t = JUndefined"
  by (cases t) (auto simp: Map_get_def KNOWN_VALUES_def)

lemma slice_inner:
  assumes "2 \<le> length t"
  shows "slice t 1 (- 1) = butlast (tl t)"
proof -
  from assms have n: "nat (int (length t) - 2) = length t - 2" by linarith
  have "butlast (tl t) = take (length t - 2) (drop 1 t)"
    by (simp add: butlast_conv_take drop_Suc numeral_2_eq_2)
  with assms n show ?thesis by (simp add: slice_def Let_def)
qed

lemma synapse_index_by_branch:
  "synapse_index rt (JString text) options =
     (case branch_index (trim text) of
        KnownLiteral \<Rightarrow> Inr (Map_get KNOWN_VALUES (trim text))
      | EmptyQuoted \<Rightarrow> Inr (JString [])
      | QuotedLiteral \<Rightarrow> Inr (JString (slice (trim text) 1 (- 1)))
      | BigIntLiteral \<Rightarrow>
          (case BigInt rt (slice (trim text) 0 (- 1)) of
             Some n \<Rightarrow> Inr (JBigInt n)
           | None \<Rightarrow>
               if is_strict options then Inl (InvalidBigInt (trim text)) else Inr (JString text))
      | JSONCandidate \<Rightarrow>
          (if is_strict options \<and> (suspectProtoRx_test text \<or> suspectConstructorRx_test text)
           then Inl PossiblePrototypePollution
           else
             (case JSON_parse rt text of
                Some parsed \<Rightarrow> Inr parsed
              | None \<Rightarrow> if is_strict options then Inl RuntimeSyntaxError else Inr (JString text)))
      | Fallback \<Rightarrow> if is_strict options then Inl InvalidJSON else Inr (JString text))"
  by (simp add: synapse_index_def branch_index_def Let_def try_catch_def call_BigInt_def
      call_JSON_parse_def split: option.splits)

lemma endsWith_quote: \<open>endsWith t ''"'' = (t \<noteq> [] \<and> last t = CHR ''"'')\<close>
proof (cases t rule: rev_cases)
  case Nil
  then show ?thesis by (simp add: endsWith_def)
next
  case (snoc ys y)
  then show ?thesis by (auto simp: endsWith_def)
qed


lemma last_two: "length t = 2 \<Longrightarrow> last t = t ! Suc 0" for t :: string
  by (cases t) (auto simp: last_conv_nth)

lemma synapse_part_by_branch:
  \<open>synapse_part rt (JString text) options =
     (case branch_part (trim text) of
        KnownLiteral \<Rightarrow> ([], Inr (Map_get KNOWN_VALUES (toLowerCase (trim text))))
      | EmptyQuoted \<Rightarrow> ([], Inr (JString []))
      | QuotedLiteral \<Rightarrow>
          (if is_strict options \<and> (length (trim text) < 2 \<or> last (trim text) \<noteq> CHR ''"'')
           then ([], Inl InvalidJSON)
           else
             (case JSON_parse rt (trim text) of
                Some parsed \<Rightarrow> ([], Inr parsed)
              | None \<Rightarrow> ([], if is_strict options then Inl InvalidJSON else Inr (JString text))))
      | BigIntLiteral \<Rightarrow>
          (case BigInt rt (slice (trim text) 0 (- 1)) of
             Some n \<Rightarrow> ([], Inr (JBigInt n))
           | None \<Rightarrow>
               ([], if is_strict options then Inl (InvalidBigInt (trim text)) else Inr (JString text)))
      | JSONCandidate \<Rightarrow>
          (if checkPrototypePollution (trim text) then [''[synapse] Possible prototype pollution'']
           else [],
           if checkPrototypePollution (trim text) \<and> is_strict options
           then Inl PossiblePrototypePollution
           else
             (case JSON_parse rt (trim text) of
                Some parsed \<Rightarrow> Inr (cleanObject parsed)
              | None \<Rightarrow> if is_strict options then Inl RuntimeSyntaxError else Inr (JString text)))
      | Fallback \<Rightarrow> ([], if is_strict options then Inl InvalidJSON else Inr (JString text)))\<close>
proof -
  let ?t = "trim text"
  let ?known = \<open>length ?t \<le> 10 \<and>
     (Map_get KNOWN_VALUES (toLowerCase ?t) \<noteq> JUndefined \<or> toLowerCase ?t = ''null''
      \<or> toLowerCase ?t = ''undefined'')\<close>
  let ?quote = \<open>charAt ?t 0 = Some (CHR ''"'')\<close>
  let ?empty = \<open>length ?t = 2 \<and> charAt ?t 1 = Some (CHR ''"'')\<close>
  let ?gate = \<open>charAt ?t 0 = Some (CHR ''['') \<or> charAt ?t 0 = Some (CHR ''{'')
     \<or> charAt ?t 0 = Some (CHR ''"'') \<or> leadingDigitRegex_test ?t\<close>
  note defs = synapse_part_def branch_part_def Let_def
  note sel = if_True if_False jsvalue.case branch.case simp_thms
  show ?thesis
  proof (cases ?known)
    case True
    show ?thesis unfolding defs by (simp only: True sel)
  next
    case nk: False
    show ?thesis
    proof (cases ?quote)
      case q: True
      show ?thesis
      proof (cases ?empty)
        case e: True
        then have len: "length ?t = 2" and c1: "?t ! Suc 0 = CHR 0x22"
          by (simp_all add: charAt_def split: if_splits)
        from len have ne: "?t \<noteq> []" by auto
        from len c1 have l: "last ?t = CHR 0x22" by (simp add: last_two)
        have s: \<open>\<not> (is_strict options \<and> (\<not> endsWith ?t ''"'' \<or> length ?t < 2))\<close>
          using len l ne by (simp add: endsWith_quote)
        show ?thesis unfolding defs
          apply (simp only: nk q s sel)
          apply (simp only: e sel)
          done
      next
        case ne: False
        show ?thesis unfolding defs
          apply (simp only: nk q ne sel)
          apply (auto simp add: endsWith_quote try_catch_def call_JSON_parse_def split: option.splits)
          done
      qed
    next
      case nq: False
      show ?thesis
      proof (cases "BIGINT_REGEX_test ?t")
        case b: True
        show ?thesis unfolding defs
          apply (simp only: nk nq b sel)
          apply (simp add: try_catch_def call_BigInt_def split: option.splits)
          done
      next
        case nb: False
        show ?thesis
        proof (cases ?gate)
          case g: True
          show ?thesis unfolding defs
            apply (simp only: nk nb g sel)
            apply (simp only: nq sel)
            apply (simp add: try_catch_def call_JSON_parse_def split: option.splits)
            done
        next
          case ng: False
          show ?thesis unfolding defs
            apply (simp only: nk nb ng sel)
            apply (simp only: nq sel)
            apply simp
            done
        qed
      qed
    qed
  qed
qed

lemma clean_proto_free:
  "proto_free (cleanObject v)" "proto_free_items (cleanItems xs)" "proto_free_props (cleanKeys ps)"
  by (induction v and xs and ps rule: cleanObject_cleanItems_cleanKeys.induct) simp_all

lemma clean_id:
  "proto_free v \<Longrightarrow> cleanObject v = v"
  "proto_free_items xs \<Longrightarrow> cleanItems xs = xs"
  "proto_free_props ps \<Longrightarrow> cleanKeys ps = ps"
  by (induction v and xs and ps rule: cleanObject_cleanItems_cleanKeys.induct) simp_all

lemma map_of_cleanKeys:
  "map_of (cleanKeys ps) k =
     (if k = ''__proto__'' then None else map_option cleanObject (map_of ps k))"
  by (induction ps) auto

lemma number_start_known:
  assumes "is_digit d" and "t = d # r \<or> t = CHR ''-'' # d # r"
  shows "Map_get KNOWN_VALUES t = JUndefined"
    and "Map_get KNOWN_VALUES (toLowerCase t) = JUndefined"
    and "toLowerCase t \<noteq> ''null''" and "toLowerCase t \<noteq> ''undefined''"
    and "codePointAt t 0 \<noteq> Some 34" and \<open>charAt t 0 \<noteq> Some (CHR ''"'')\<close>
    and "codePointAt t 0 \<noteq> Some 91" and "codePointAt t 0 \<noteq> Some 123"
    and \<open>charAt t 0 \<noteq> Some (CHR ''['')\<close> and \<open>charAt t 0 \<noteq> Some (CHR ''{'')\<close>
  using assms
  by (auto simp: is_digit_def Map_get_def KNOWN_VALUES_def toLowerCase_def lower_char_def
      codePointAt_def charAt_def)

lemma bigint_shape:
  assumes "BIGINT_REGEX_test t"
  shows "\<exists>d r. is_digit d \<and> (t = d # r \<or> t = CHR ''-'' # d # r)"
proof -
  from assms have ne: "takeWhile is_digit (opt_minus t) \<noteq> []"
    by (simp add: BIGINT_REGEX_test_def Let_def)
  then obtain d r where o: "opt_minus t = d # r" and d: "is_digit d"
    by (cases "opt_minus t") (auto split: if_splits)
  from o have "t = d # r \<or> t = CHR ''-'' # d # r"
    by (auto simp: opt_minus_def split: list.splits if_splits)
  with d show ?thesis by blast
qed

lemma bigint_branch:
  assumes "BIGINT_REGEX_test t"
  shows "branch_index t = BigIntLiteral" and "branch_part t = BigIntLiteral"
proof -
  from bigint_shape [OF assms] obtain d r where
    d: "is_digit d" and t: "t = d # r \<or> t = CHR ''-'' # d # r" by blast
  note k = number_start_known [OF d t]
  from assms k show "branch_index t = BigIntLiteral"
    by (simp add: branch_index_def Let_def)
  from assms k show "branch_part t = BigIntLiteral"
    by (simp add: branch_part_def Let_def)
qed

lemma bracket_branch:
  assumes "t = c # r" and "c = CHR ''['' \<or> c = CHR ''{''"
  shows "branch_index t = JSONCandidate" and "branch_part t = JSONCandidate"
proof -
  from assms have k: "Map_get KNOWN_VALUES t = JUndefined"
    "Map_get KNOWN_VALUES (toLowerCase t) = JUndefined"
    "toLowerCase t \<noteq> ''null''" "toLowerCase t \<noteq> ''undefined''"
    by (auto simp: Map_get_def KNOWN_VALUES_def toLowerCase_def lower_char_def)
  from assms have b: "\<not> BIGINT_REGEX_test t"
    by (auto simp: BIGINT_REGEX_test_def opt_minus_def is_digit_def)
  from assms have c: "codePointAt t 0 = Some 91 \<or> codePointAt t 0 = Some 123"
    "codePointAt t 0 \<noteq> Some 34"
    \<open>charAt t 0 = Some (CHR ''['') \<or> charAt t 0 = Some (CHR ''{'')\<close>
    \<open>charAt t 0 \<noteq> Some (CHR ''"'')\<close>
    by (auto simp: codePointAt_def charAt_def)
  from k b c show "branch_index t = JSONCandidate"
    by (auto simp: branch_index_def Let_def)
  from k b c show "branch_part t = JSONCandidate"
    by (auto simp: branch_part_def Let_def)
qed

lemma branch_index_bigint: "(branch_index t = BigIntLiteral) = BIGINT_REGEX_test t"
proof
  assume "branch_index t = BigIntLiteral"
  then show "BIGINT_REGEX_test t"
    by (simp add: branch_index_def Let_def split: if_splits)
qed (rule bigint_branch)

lemma branch_part_bigint: "(branch_part t = BigIntLiteral) = BIGINT_REGEX_test t"
proof
  assume "branch_part t = BigIntLiteral"
  then show "BIGINT_REGEX_test t"
    by (simp add: branch_part_def Let_def split: if_splits)
qed (rule bigint_branch)

lemma proto_groups_spell:
  \<open>suspectProto_groups = [''"''] # map char_spellings ''__proto__'' @ [[''"'']]\<close>
  by code_simp

lemma constructor_groups_spell:
  \<open>suspectConstructor_groups = [''"''] # map char_spellings ''constructor'' @ [[''"'']]\<close>
  by code_simp

lemma search_iff: "search P s = (\<exists>before t. s = before @ t \<and> P t)"
proof (induction s)
  case Nil
  then show ?case by simp
next
  case (Cons c cs)
  show ?case
  proof
    assume "search P (c # cs)"
    then consider "P (c # cs)" | "search P cs" by auto
    then show "\<exists>before t. c # cs = before @ t \<and> P t"
    proof cases
      case 1
      then have "c # cs = [] @ (c # cs) \<and> P (c # cs)" by simp
      then show ?thesis by blast
    next
      case 2
      with Cons.IH obtain b t where "cs = b @ t" "P t" by blast
      then have "c # cs = (c # b) @ t \<and> P t" by simp
      then show ?thesis by blast
    qed
  next
    assume "\<exists>before t. c # cs = before @ t \<and> P t"
    then obtain b t where bt: "c # cs = b @ t" "P t" by blast
    show "search P (c # cs)"
    proof (cases b)
      case Nil
      with bt have "P (c # cs)" by simp
      then show ?thesis by simp
    next
      case (Cons x xs)
      with bt have "cs = xs @ t" by simp
      with bt(2) Cons.IH show ?thesis by auto
    qed
  qed
qed

lemma match_alts_iff: "(r \<in> set (match_alts alts t)) = (\<exists>a \<in> set alts. t = a @ r)"
proof
  assume "r \<in> set (match_alts alts t)"
  then obtain a where a: "a \<in> set alts" "take (length a) t = a" "r = drop (length a) t"
    by (auto simp: match_alts_def)
  then have "t = a @ r" by (metis append_take_drop_id)
  with a(1) show "\<exists>a \<in> set alts. t = a @ r" by blast
next
  assume "\<exists>a \<in> set alts. t = a @ r"
  then obtain a where a: "a \<in> set alts" "t = a @ r" by blast
  then have "take (length a) t = a" "drop (length a) t = r" by simp_all
  with a(1) have "r \<in> (\<lambda>a. drop (length a) t) ` {a \<in> set alts. take (length a) t = a}"
    by blast
  then show "r \<in> set (match_alts alts t)"
    by (simp add: match_alts_def)
qed

lemma match_seq_iff:
  "(r \<in> set (match_seq groups t)) = (\<exists>sp \<in> set (all_concats groups). t = sp @ r)"
proof (induction groups arbitrary: t)
  case Nil
  then show ?case by auto
next
  case (Cons alts groups)
  show ?case
  proof
    assume "r \<in> set (match_seq (alts # groups) t)"
    then obtain u where u: "u \<in> set (match_alts alts t)" "r \<in> set (match_seq groups u)"
      by auto
    from u(1) obtain a where a: "a \<in> set alts" "t = a @ u"
      by (auto simp: match_alts_iff)
    from u(2) Cons.IH obtain sp where sp: "sp \<in> set (all_concats groups)" "u = sp @ r"
      by blast
    from a sp have "a @ sp \<in> set (all_concats (alts # groups))" "t = (a @ sp) @ r"
      by auto
    then show "\<exists>sp \<in> set (all_concats (alts # groups)). t = sp @ r" by blast
  next
    assume "\<exists>sp \<in> set (all_concats (alts # groups)). t = sp @ r"
    then obtain a sp where a: "a \<in> set alts" "sp \<in> set (all_concats groups)"
      "t = (a @ sp) @ r"
      by auto
    then have "sp @ r \<in> set (match_alts alts t)"
      by (auto simp: match_alts_iff)
    moreover from a(2) Cons.IH have "r \<in> set (match_seq groups (sp @ r))"
      by blast
    ultimately show "r \<in> set (match_seq (alts # groups) t)"
      by auto
  qed
qed

lemma colon_not_space: "\<not> is_WhiteSpace (CHR '':'')" \<open>\<not> is_WhiteSpace (CHR ''"'')\<close>
  by (simp_all add: is_WhiteSpace_def)

lemma spaces_colon_iff:
  "spaces_colon r = (\<exists>ws after. list_all is_WhiteSpace ws \<and> r = ws @ '':'' @ after)"
proof
  assume a: "spaces_colon r"
  then obtain rest where d: "dropWhile is_WhiteSpace r = CHR '':'' # rest"
    by (auto simp: spaces_colon_def split: list.splits)
  have "r = takeWhile is_WhiteSpace r @ dropWhile is_WhiteSpace r" by simp
  with d have "r = takeWhile is_WhiteSpace r @ '':'' @ rest" by simp
  moreover have "list_all is_WhiteSpace (takeWhile is_WhiteSpace r)"
    by (simp add: list_all_iff) (meson set_takeWhileD)
  ultimately show "\<exists>ws after. list_all is_WhiteSpace ws \<and> r = ws @ '':'' @ after" by blast
next
  assume "\<exists>ws after. list_all is_WhiteSpace ws \<and> r = ws @ '':'' @ after"
  then obtain ws after where w: "list_all is_WhiteSpace ws" "r = ws @ '':'' @ after" by blast
  from w(1) have "dropWhile is_WhiteSpace (ws @ '':'' @ after) = '':'' @ after"
    by (induction ws) (simp_all add: colon_not_space)
  with w(2) show "spaces_colon r" by (simp add: spaces_colon_def)
qed

lemma all_concats_snoc:
  "set (all_concats (groups @ [[q]])) = (\<lambda>sp. sp @ q) ` set (all_concats groups)"
proof (induction groups)
  case Nil
  then show ?case by simp
next
  case (Cons alts groups)
  have "set (all_concats ((alts # groups) @ [[q]]))
      = (\<Union>a \<in> set alts. (\<lambda>r. a @ r) ` set (all_concats (groups @ [[q]])))"
    by auto
  also have "\<dots> = (\<Union>a \<in> set alts. (\<lambda>r. a @ r) ` (\<lambda>sp. sp @ q) ` set (all_concats groups))"
    by (simp only: Cons.IH)
  also have "\<dots> = (\<lambda>sp. sp @ q) ` (\<Union>a \<in> set alts. (\<lambda>r. a @ r) ` set (all_concats groups))"
    by (auto simp: image_iff) blast
  also have "(\<Union>a \<in> set alts. (\<lambda>r. a @ r) ` set (all_concats groups))
      = set (all_concats (alts # groups))"
    by auto
  finally show ?case .
qed

lemma quoted_groups:
  \<open>(x \<in> set (all_concats ([''"''] # map char_spellings k @ [[''"'']])))
     = (\<exists>sp \<in> set (key_spellings k). x = ''"'' @ sp @ ''"'')\<close>
  by (auto simp: all_concats_snoc key_spellings_def)

lemma key_test_iff:
  \<open>search (\<lambda>t. list_ex spaces_colon (match_seq ([''"''] # map char_spellings k @ [[''"'']]) t)) s
     = contains_key k s\<close>
proof
  let ?G = \<open>[''"''] # map char_spellings k @ [[''"'']]\<close>
  assume "search (\<lambda>t. list_ex spaces_colon (match_seq ?G t)) s"
  then obtain before t r where s: "s = before @ t" and r: "r \<in> set (match_seq ?G t)"
    and c: "spaces_colon r"
    by (auto simp: search_iff list_ex_iff)
  from r [unfolded match_seq_iff] obtain x where x: "x \<in> set (all_concats ?G)" "t = x @ r"
    by blast
  from x(1) [unfolded quoted_groups] obtain sp
    where sp: "sp \<in> set (key_spellings k)" \<open>x = ''"'' @ sp @ ''"''\<close>
    by blast
  from c [unfolded spaces_colon_iff] obtain ws after
    where w: "list_all is_WhiteSpace ws" "r = ws @ '':'' @ after"
    by blast
  from s x(2) sp(2) w(2) have \<open>s = before @ ''"'' @ sp @ ''"'' @ ws @ '':'' @ after\<close>
    by simp
  with sp(1) w(1) show "contains_key k s"
    unfolding contains_key_def by blast
next
  let ?G = \<open>[''"''] # map char_spellings k @ [[''"'']]\<close>
  assume "contains_key k s"
  then obtain before sp ws after where sp: "sp \<in> set (key_spellings k)"
    and w: "list_all is_WhiteSpace ws"
    and s: \<open>s = before @ ''"'' @ sp @ ''"'' @ ws @ '':'' @ after\<close>
    unfolding contains_key_def by blast
  let ?r = "ws @ '':'' @ after"
  let ?x = \<open>''"'' @ sp @ ''"''\<close>
  from sp have "?x \<in> set (all_concats ?G)"
    by (simp only: quoted_groups) blast
  then have "?r \<in> set (match_seq ?G (?x @ ?r))"
    by (simp only: match_seq_iff) blast
  moreover from w have "spaces_colon ?r"
    by (simp only: spaces_colon_iff) blast
  ultimately have "list_ex spaces_colon (match_seq ?G (?x @ ?r))"
    by (auto simp: list_ex_iff)
  moreover from s have "s = before @ (?x @ ?r)" by simp
  ultimately show "search (\<lambda>t. list_ex spaces_colon (match_seq ?G t)) s"
    by (simp only: search_iff) blast
qed

lemma suspectProtoRx_iff: "suspectProtoRx_test s = contains_key ''__proto__'' s"
  unfolding suspectProtoRx_test_def proto_groups_spell by (rule key_test_iff)

lemma suspectConstructorRx_iff: "suspectConstructorRx_test s = contains_key ''constructor'' s"
  unfolding suspectConstructorRx_test_def constructor_groups_spell by (rule key_test_iff)

lemma dropWhile_before:
  "\<not> P y \<Longrightarrow> dropWhile P (xs @ y # ys) = dropWhile P xs @ y # ys"
  by (induction xs) simp_all

lemma trim_decomp:
  "s = takeWhile is_WhiteSpace s @ trim s
         @ rev (takeWhile is_WhiteSpace (rev (dropWhile is_WhiteSpace s)))"
proof -
  let ?u = "dropWhile is_WhiteSpace s"
  have "rev (dropWhile is_WhiteSpace (rev ?u)) @ rev (takeWhile is_WhiteSpace (rev ?u))
      = rev (takeWhile is_WhiteSpace (rev ?u) @ dropWhile is_WhiteSpace (rev ?u))"
    by (simp only: rev_append)
  also have "\<dots> = rev (rev ?u)" by (simp only: takeWhile_dropWhile_id)
  also have "\<dots> = ?u" by simp
  finally have "trim s @ rev (takeWhile is_WhiteSpace (rev ?u)) = ?u"
    by (simp only: trim_def)
  then have "takeWhile is_WhiteSpace s @ trim s @ rev (takeWhile is_WhiteSpace (rev ?u))
      = takeWhile is_WhiteSpace s @ ?u"
    by simp
  then show ?thesis by simp
qed

lemma trim_keeps:
  assumes "\<not> is_WhiteSpace y" and "\<not> is_WhiteSpace z"
  shows "trim (before @ y # mid @ z # after)
       = dropWhile is_WhiteSpace before @ y # mid @ z # rev (dropWhile is_WhiteSpace (rev after))"
proof -
  let ?b = "dropWhile is_WhiteSpace before"
  have 1: "dropWhile is_WhiteSpace (before @ y # mid @ z # after) = ?b @ y # mid @ z # after"
    using assms(1) by (rule dropWhile_before)
  have 2: "rev (?b @ y # mid @ z # after) = rev after @ z # (rev mid @ y # rev ?b)"
    by simp
  have 3: "dropWhile is_WhiteSpace (rev after @ z # (rev mid @ y # rev ?b))
      = dropWhile is_WhiteSpace (rev after) @ z # (rev mid @ y # rev ?b)"
    using assms(2) by (rule dropWhile_before)
  have "trim (before @ y # mid @ z # after)
      = rev (dropWhile is_WhiteSpace (rev after) @ z # (rev mid @ y # rev ?b))"
    by (simp only: trim_def 1 2 3)
  then show ?thesis by simp
qed

lemma contains_key_trim: "contains_key k (trim s) = contains_key k s"
proof
  assume "contains_key k (trim s)"
  then obtain before sp ws after where sp: "sp \<in> set (key_spellings k)"
    and w: "list_all is_WhiteSpace ws"
    and t: \<open>trim s = before @ ''"'' @ sp @ ''"'' @ ws @ '':'' @ after\<close>
    unfolding contains_key_def by blast
  let ?a = "takeWhile is_WhiteSpace s"
  let ?z = "rev (takeWhile is_WhiteSpace (rev (dropWhile is_WhiteSpace s)))"
  from trim_decomp [of s] t
  have \<open>s = (?a @ before) @ ''"'' @ sp @ ''"'' @ ws @ '':'' @ (after @ ?z)\<close>
    by simp
  with sp w show "contains_key k s"
    unfolding contains_key_def by blast
next
  assume "contains_key k s"
  then obtain before sp ws after where sp: "sp \<in> set (key_spellings k)"
    and w: "list_all is_WhiteSpace ws"
    and s: \<open>s = before @ ''"'' @ sp @ ''"'' @ ws @ '':'' @ after\<close>
    unfolding contains_key_def by blast
  from s have \<open>s = before @ CHR ''"'' # (sp @ ''"'' @ ws) @ CHR '':'' # after\<close>
    by simp
  then have \<open>trim s = dropWhile is_WhiteSpace before @ CHR ''"'' # (sp @ ''"'' @ ws)
      @ CHR '':'' # rev (dropWhile is_WhiteSpace (rev after))\<close>
    by (simp only: trim_keeps [OF colon_not_space(2) colon_not_space(1)])
  then have \<open>trim s = dropWhile is_WhiteSpace before @ ''"'' @ sp @ ''"'' @ ws @ '':''
      @ rev (dropWhile is_WhiteSpace (rev after))\<close>
    by simp
  with sp w show "contains_key k (trim s)"
    unfolding contains_key_def by blast
qed

lemma checkPrototypePollution_iff:
  "checkPrototypePollution s = (contains_key ''__proto__'' s \<or> contains_key ''constructor'' s)"
  by (simp add: checkPrototypePollution_def suspectProtoRx_iff suspectConstructorRx_iff)

lemma slice_butlast: "slice t 0 (- 1) = butlast t"
proof (cases t rule: rev_cases)
  case Nil
  then show ?thesis by (simp add: slice_def)
next
  case (snoc ys y)
  then show ?thesis by (simp add: slice_def Let_def)
qed

lemma digit_hex_val: "is_digit c \<Longrightarrow> \<exists>d. hex_val c = Some d \<and> d < 10"
  by (auto simp: is_digit_def hex_val_def)

lemma digit_not_space: "is_digit c \<Longrightarrow> \<not> is_WhiteSpace c"
  by (auto simp: is_digit_def is_WhiteSpace_def)

lemma digits_val_digits:
  assumes "ds \<noteq> []" and "\<forall>c \<in> set ds. is_digit c"
  shows "\<exists>n. digits_val 10 ds = Some n"
proof -
  from assms(2) have "list_all (\<lambda>c. case hex_val c of None \<Rightarrow> False | Some d \<Rightarrow> d < 10) ds"
    using digit_hex_val by (fastforce simp: list_all_iff)
  with assms(1) show ?thesis by (simp add: digits_val_def)
qed

lemma trim_no_space: "\<forall>c \<in> set x. \<not> is_WhiteSpace c \<Longrightarrow> trim x = x"
proof -
  assume a: "\<forall>c \<in> set x. \<not> is_WhiteSpace c"
  have d: "dropWhile is_WhiteSpace y = y" if "\<forall>c \<in> set y. \<not> is_WhiteSpace c" for y
    using that by (cases y) simp_all
  from a have "dropWhile is_WhiteSpace x = x" by (rule d)
  moreover from a have "dropWhile is_WhiteSpace (rev x) = rev x" by (intro d) simp
  ultimately show ?thesis by (simp add: trim_def)
qed

lemma ecma_BigInt_digits:
  assumes "ds \<noteq> []" and "\<forall>c \<in> set ds. is_digit c"
  shows "\<exists>n. ecma_BigInt ds = Some n" and "\<exists>n. ecma_BigInt (CHR ''-'' # ds) = Some n"
proof -
  from digits_val_digits [OF assms] obtain n where n: "digits_val 10 ds = Some n" by blast
  from assms obtain d r where ds: "ds = d # r" and d: "is_digit d"
    by (cases ds) auto
  have nx: "take 2 ds \<noteq> ''0x''" "take 2 ds \<noteq> ''0X''" "take 2 ds \<noteq> ''0o''" "take 2 ds \<noteq> ''0O''"
    "take 2 ds \<noteq> ''0b''" "take 2 ds \<noteq> ''0B''" "take 1 ds \<noteq> ''-''" "take 1 ds \<noteq> ''+''"
    using assms(2) ds by (cases r; auto simp: is_digit_def)+
  from assms(2) have t1: "trim ds = ds"
    by (intro trim_no_space) (auto dest: digit_not_space)
  have "\<not> is_WhiteSpace (CHR ''-'')" by (simp add: is_WhiteSpace_def)
  with assms(2) have "\<forall>c \<in> set (CHR ''-'' # ds). \<not> is_WhiteSpace c"
    by (auto dest: digit_not_space)
  then have t2: "trim (CHR ''-'' # ds) = CHR ''-'' # ds"
    by (rule trim_no_space)
  from n nx t1 assms(1) show "\<exists>n. ecma_BigInt ds = Some n"
    by (simp add: ecma_BigInt_def Let_def)
  from n t2 ds show "\<exists>n. ecma_BigInt (CHR ''-'' # ds) = Some n"
    by (simp add: ecma_BigInt_def Let_def)
qed

lemma ecma_BigInt_accepts:
  assumes "BIGINT_REGEX_test t"
  shows "\<exists>n. ecma_BigInt (slice t 0 (- 1)) = Some n"
proof -
  let ?r = "opt_minus t"
  let ?ds = "takeWhile is_digit ?r"
  from assms have ne: "?ds \<noteq> []" and rest: "dropWhile is_digit ?r = ''n'' \<or> dropWhile is_digit ?r = ''N''"
    by (simp_all add: BIGINT_REGEX_test_def Let_def)
  have "?r = ?ds @ dropWhile is_digit ?r" by simp
  with rest have "?r = ?ds @ ''n'' \<or> ?r = ?ds @ ''N''" by metis
  then obtain c where r: "?r = ?ds @ [c]" by blast
  have dg: "\<forall>c \<in> set ?ds. is_digit c" by (auto dest: set_takeWhileD)
  have "t = ?r \<or> t = CHR ''-'' # ?r"
    by (auto simp: opt_minus_def split: list.splits)
  with r have "butlast t = ?ds \<or> butlast t = CHR ''-'' # ?ds"
    by (metis butlast.simps(2) butlast_snoc snoc_eq_iff_butlast)
  with ecma_BigInt_digits [OF ne dg] show ?thesis
    by (auto simp: slice_butlast)
qed

section \<open>The claims\<close>

text \<open>
  C1. For a string that reaches the structural-JSON branch and that the runtime's parser
  accepts, the structure returned in lenient mode should have no object key named
  \<open>__proto__\<close> at any depth. \<^verbatim>\<open>src/src/index.ts\<close> has no key-stripping walk: it returns
  what \<open>JSON.parse\<close> built, and \<open>JSON.parse\<close> makes \<open>__proto__\<close> an own property. On the
  claim's example it returns both keys.
\<close>

theorem index_keeps_proto_key:
  \<open>branch_index (trim ''{"__proto__":{"polluted":true},"a":1}'') = JSONCandidate
   \<and> synapse_index ecma (JString ''{"__proto__":{"polluted":true},"a":1}'') \<lparr>strict = None\<rparr>
       = Inr (JObject [(''__proto__'', JObject [(''polluted'', JBoolean True)]),
                       (''a'', JNumber (Finite 1 0))])
   \<and> \<not> proto_free (JObject [(''__proto__'', JObject [(''polluted'', JBoolean True)]),
                             (''a'', JNumber (Finite 1 0))])\<close>
  by code_simp

text \<open>
  C1, as amended. In \<^verbatim>\<open>src/unnamed/part_000\<close>, for every runtime, every string that
  reaches the structural-JSON branch and that the parser accepts, and every options record
  with \<open>strict\<close> absent or false, the value returned is \<open>cleanObject\<close> of the parsed
  structure, which has no key named \<open>__proto__\<close> at any depth.
\<close>

theorem part_result_proto_free:
  assumes "strict options = None \<or> strict options = Some False"
    and "branch_part (trim text) = JSONCandidate"
    and "JSON_parse rt (trim text) = Some parsed"
  shows "snd (synapse_part rt (JString text) options) = Inr (cleanObject parsed)
       \<and> proto_free (cleanObject parsed)"
proof -
  from assms(1) have "\<not> is_strict options" by (auto simp: is_strict_def)
  with assms(2,3) show ?thesis
    by (simp add: synapse_part_by_branch clean_proto_free)
qed

theorem part_result_proto_free_witness:
  \<open>(strict \<lparr>strict = None\<rparr> = None \<or> strict \<lparr>strict = None\<rparr> = Some False)
   \<and> branch_part (trim ''{"__proto__":{"polluted":true},"a":1}'') = JSONCandidate
   \<and> JSON_parse ecma (trim ''{"__proto__":{"polluted":true},"a":1}'')
       = Some (JObject [(''__proto__'', JObject [(''polluted'', JBoolean True)]),
                        (''a'', JNumber (Finite 1 0))])
   \<and> snd (synapse_part ecma (JString ''{"__proto__":{"polluted":true},"a":1}'') \<lparr>strict = None\<rparr>)
       = Inr (JObject [(''a'', JNumber (Finite 1 0))])
   \<and> proto_free (JObject [(''a'', JNumber (Finite 1 0))])\<close>
proof -
  let ?text = \<open>''{"__proto__":{"polluted":true},"a":1}''\<close>
  let ?parsed = "JObject [(''__proto__'', JObject [(''polluted'', JBoolean True)]),
                          (''a'', JNumber (Finite 1 0))]"
  have h1: "strict \<lparr>strict = None\<rparr> = None \<or> strict \<lparr>strict = None\<rparr> = Some False" by simp
  have h2: "branch_part (trim ?text) = JSONCandidate" by code_simp
  have h3: "JSON_parse ecma (trim ?text) = Some ?parsed" by code_simp
  have c: "cleanObject ?parsed = JObject [(''a'', JNumber (Finite 1 0))]" by simp
  from part_result_proto_free [OF h1 h2 h3] h1 h2 h3 c show ?thesis by simp
qed

text \<open>
  C2. In strict mode a text that contains a key spelled \<open>__proto__\<close> or \<open>constructor\<close>
  followed by a colon should raise the pollution error. The patterns are tested only
  inside the structural-JSON branch: a text that starts with a quote and ends with one is
  returned without its quotes by \<^verbatim>\<open>src/src/index.ts\<close> and refused as invalid JSON by
  \<^verbatim>\<open>src/unnamed/part_000\<close>; a text that no branch matches is refused as invalid JSON by
  both.
\<close>

theorem strict_pollution_outside_json_branch:
  \<open>contains_key ''__proto__'' ''"__proto__":""''
   \<and> safesynapse_index ecma (JString ''"__proto__":""'') \<lparr>strict = None\<rparr>
       = Inr (JString ''__proto__":"'')
   \<and> safesynapse_part ecma (JString ''"__proto__":""'') \<lparr>strict = None\<rparr>
       = ([], Inl InvalidJSON)
   \<and> contains_key ''__proto__'' ''x{"__proto__":1}''
   \<and> safesynapse_index ecma (JString ''x{"__proto__":1}'') \<lparr>strict = None\<rparr> = Inl InvalidJSON
   \<and> safesynapse_part ecma (JString ''x{"__proto__":1}'') \<lparr>strict = None\<rparr> = ([], Inl InvalidJSON)\<close>
proof -
  have \<open>suspectProtoRx_test ''"__proto__":""''\<close> by code_simp
  then have a: \<open>contains_key ''__proto__'' ''"__proto__":""''\<close>
    by (simp only: suspectProtoRx_iff)
  have \<open>suspectProtoRx_test ''x{"__proto__":1}''\<close> by code_simp
  then have b: \<open>contains_key ''__proto__'' ''x{"__proto__":1}''\<close>
    by (simp only: suspectProtoRx_iff)
  have c: \<open>safesynapse_index ecma (JString ''"__proto__":""'') \<lparr>strict = None\<rparr>
       = Inr (JString ''__proto__":"'')\<close>
    \<open>safesynapse_part ecma (JString ''"__proto__":""'') \<lparr>strict = None\<rparr>
       = ([], Inl InvalidJSON)\<close>
    \<open>safesynapse_index ecma (JString ''x{"__proto__":1}'') \<lparr>strict = None\<rparr> = Inl InvalidJSON\<close>
    \<open>safesynapse_part ecma (JString ''x{"__proto__":1}'') \<lparr>strict = None\<rparr> = ([], Inl InvalidJSON)\<close>
    by code_simp+
  from a b c show ?thesis by (simp only: simp_thms)
qed

text \<open>
  C2, as amended. In strict mode, when the text contains a key spelled \<open>__proto__\<close> or
  \<open>constructor\<close> (each character as it is or as an escape \<^verbatim>\<open>\uXXXX\<close>) followed by optional
  white space and a colon, and its trimmed form reaches the structural-JSON branch (as
  every trimmed form that starts with \<open>[\<close> or \<open>{\<close> does), the result is the pollution
  error, whatever the runtime's parser would do with the text;
  \<^verbatim>\<open>src/unnamed/part_000\<close> also writes its warning. The two patterns of the source
  recognise exactly the texts that contain such a key.
\<close>

theorem strict_pollution_rejected:
  assumes "is_strict options"
    and "contains_key ''__proto__'' text \<or> contains_key ''constructor'' text"
  shows \<open>(branch_index (trim text) = JSONCandidate
          \<longrightarrow> synapse_index rt (JString text) options = Inl PossiblePrototypePollution)
       \<and> (branch_part (trim text) = JSONCandidate
          \<longrightarrow> synapse_part rt (JString text) options
              = ([''[synapse] Possible prototype pollution''], Inl PossiblePrototypePollution))
       \<and> (\<forall>r. trim text = CHR ''['' # r \<or> trim text = CHR ''{'' # r
          \<longrightarrow> branch_index (trim text) = JSONCandidate \<and> branch_part (trim text) = JSONCandidate)
       \<and> suspectProtoRx_test text = contains_key ''__proto__'' text
       \<and> suspectConstructorRx_test text = contains_key ''constructor'' text\<close>
proof -
  from assms(2) have i: "suspectProtoRx_test text \<or> suspectConstructorRx_test text"
    by (simp only: suspectProtoRx_iff suspectConstructorRx_iff)
  from assms(2) have p: "checkPrototypePollution (trim text)"
    by (simp only: checkPrototypePollution_iff contains_key_trim)
  have b: "\<forall>r. trim text = CHR ''['' # r \<or> trim text = CHR ''{'' # r
          \<longrightarrow> branch_index (trim text) = JSONCandidate \<and> branch_part (trim text) = JSONCandidate"
    by (auto intro: bracket_branch)
  from assms(1) i p b show ?thesis
    by (simp add: synapse_index_by_branch synapse_part_by_branch suspectProtoRx_iff
        suspectConstructorRx_iff)
qed

theorem strict_pollution_rejected_witness:
  \<open>is_strict \<lparr>strict = Some True\<rparr>
   \<and> contains_key ''__proto__'' ''{"__proto__":{"x":1}}''
   \<and> contains_key ''__proto__''
        (''{"'' @ esc ''005f'' @ esc ''005fproto'' @ esc ''005f'' @ esc ''005f'' @ ''":1}'')
   \<and> safesynapse_index ecma (JString ''{"__proto__":{"x":1}}'') \<lparr>strict = None\<rparr>
       = Inl PossiblePrototypePollution
   \<and> snd (safesynapse_part ecma (JString ''{"__proto__":{"x":1}}'') \<lparr>strict = None\<rparr>)
       = Inl PossiblePrototypePollution
   \<and> safesynapse_index ecma
        (JString (''{"'' @ esc ''005f'' @ esc ''005fproto'' @ esc ''005f'' @ esc ''005f'' @ ''":1}''))
        \<lparr>strict = None\<rparr>
       = Inl PossiblePrototypePollution
   \<and> snd (safesynapse_part ecma
        (JString (''{"'' @ esc ''005f'' @ esc ''005fproto'' @ esc ''005f'' @ esc ''005f'' @ ''":1}''))
        \<lparr>strict = None\<rparr>)
       = Inl PossiblePrototypePollution\<close>
proof -
  let ?a = \<open>''{"__proto__":{"x":1}}''\<close>
  let ?b = \<open>''{"'' @ esc ''005f'' @ esc ''005fproto'' @ esc ''005f'' @ esc ''005f'' @ ''":1}''\<close>
  let ?o = "\<lparr>strict = Some True\<rparr>"
  have s: "is_strict ?o" by (simp add: is_strict_def)
  have "suspectProtoRx_test ?a" by code_simp
  then have a: "contains_key ''__proto__'' ?a" by (simp only: suspectProtoRx_iff)
  have "suspectProtoRx_test ?b" by code_simp
  then have b: "contains_key ''__proto__'' ?b" by (simp only: suspectProtoRx_iff)
  have a1: "branch_index (trim ?a) = JSONCandidate" by code_simp
  have a3: "branch_part (trim ?a) = JSONCandidate" by code_simp
  have b1: "branch_index (trim ?b) = JSONCandidate" by code_simp
  have b3: "branch_part (trim ?b) = JSONCandidate" by code_simp
  from a have a': "contains_key ''__proto__'' ?a \<or> contains_key ''constructor'' ?a" by simp
  from b have b': "contains_key ''__proto__'' ?b \<or> contains_key ''constructor'' ?b" by simp
  from strict_pollution_rejected [OF s a', of ecma] a1 a3
  have ra: "synapse_index ecma (JString ?a) ?o = Inl PossiblePrototypePollution"
    "snd (synapse_part ecma (JString ?a) ?o) = Inl PossiblePrototypePollution"
    by simp_all
  from strict_pollution_rejected [OF s b', of ecma] b1 b3
  have rb: "synapse_index ecma (JString ?b) ?o = Inl PossiblePrototypePollution"
    "snd (synapse_part ecma (JString ?b) ?o) = Inl PossiblePrototypePollution"
    by simp_all
  from s a b ra rb show ?thesis
    by (simp add: safesynapse_index_def safesynapse_part_def)
qed

text \<open>
  C3. With \<open>strict\<close> absent or false, both versions return a value for every input and
  every runtime, and return the input string itself, untrimmed, on each failure path: the
  parser refuses a JSON candidate, \<open>BigInt\<close> refuses a digit run, or no branch matches.
\<close>

theorem lenient_never_raises:
  assumes "strict options = None \<or> strict options = Some False"
  shows "(\<exists>v. synapse_index rt value options = Inr v)
       \<and> (\<exists>v. snd (synapse_part rt value options) = Inr v)
       \<and> (branch_index (trim text) = JSONCandidate \<and> JSON_parse rt text = None
          \<longrightarrow> synapse_index rt (JString text) options = Inr (JString text))
       \<and> (branch_index (trim text) = BigIntLiteral \<and> BigInt rt (slice (trim text) 0 (- 1)) = None
          \<longrightarrow> synapse_index rt (JString text) options = Inr (JString text))
       \<and> (branch_index (trim text) = Fallback
          \<longrightarrow> synapse_index rt (JString text) options = Inr (JString text))
       \<and> ((branch_part (trim text) = JSONCandidate \<or> branch_part (trim text) = QuotedLiteral)
           \<and> JSON_parse rt (trim text) = None
          \<longrightarrow> snd (synapse_part rt (JString text) options) = Inr (JString text))
       \<and> (branch_part (trim text) = BigIntLiteral \<and> BigInt rt (slice (trim text) 0 (- 1)) = None
          \<longrightarrow> snd (synapse_part rt (JString text) options) = Inr (JString text))
       \<and> (branch_part (trim text) = Fallback
          \<longrightarrow> snd (synapse_part rt (JString text) options) = Inr (JString text))"
proof -
  from assms have l: "\<not> is_strict options" by (auto simp: is_strict_def)
  have i: "\<exists>v. synapse_index rt value options = Inr v"
  proof (cases "value")
    case (JString s)
    with l show ?thesis
      by (cases "branch_index (trim s)")
        (simp_all add: synapse_index_by_branch split: option.splits)
  qed (simp_all add: synapse_index_def)
  have p: "\<exists>v. snd (synapse_part rt value options) = Inr v"
  proof (cases "value")
    case (JString s)
    with l show ?thesis
      by (cases "branch_part (trim s)")
        (simp_all add: synapse_part_by_branch split: option.splits)
  qed (simp_all add: synapse_part_def)
  from l have f: 
    "branch_index (trim text) = JSONCandidate \<and> JSON_parse rt text = None
          \<longrightarrow> synapse_index rt (JString text) options = Inr (JString text)"
    "branch_index (trim text) = BigIntLiteral \<and> BigInt rt (slice (trim text) 0 (- 1)) = None
          \<longrightarrow> synapse_index rt (JString text) options = Inr (JString text)"
    "branch_index (trim text) = Fallback
          \<longrightarrow> synapse_index rt (JString text) options = Inr (JString text)"
    by (simp_all add: synapse_index_by_branch)
  from l have g:
    "(branch_part (trim text) = JSONCandidate \<or> branch_part (trim text) = QuotedLiteral)
           \<and> JSON_parse rt (trim text) = None
          \<longrightarrow> snd (synapse_part rt (JString text) options) = Inr (JString text)"
    "branch_part (trim text) = BigIntLiteral \<and> BigInt rt (slice (trim text) 0 (- 1)) = None
          \<longrightarrow> snd (synapse_part rt (JString text) options) = Inr (JString text)"
    "branch_part (trim text) = Fallback
          \<longrightarrow> snd (synapse_part rt (JString text) options) = Inr (JString text)"
    by (auto simp add: synapse_part_by_branch)
  from i p f g show ?thesis by (simp only: simp_thms)
qed

theorem lenient_never_raises_witness:
  "(strict \<lparr>strict = Some False\<rparr> = None \<or> strict \<lparr>strict = Some False\<rparr> = Some False)
   \<and> synapse_index ecma (JString '' [1,2 '') \<lparr>strict = Some False\<rparr> = Inr (JString '' [1,2 '')
   \<and> snd (synapse_part ecma (JString '' [1,2 '') \<lparr>strict = Some False\<rparr>) = Inr (JString '' [1,2 '')
   \<and> synapse_index ecma (JString '' hello '') \<lparr>strict = Some False\<rparr> = Inr (JString '' hello '')
   \<and> snd (synapse_part ecma (JString '' hello '') \<lparr>strict = Some False\<rparr>) = Inr (JString '' hello '')
   \<and> synapse_index \<lparr>JSON_parse = ecma_JSON_parse, BigInt = (\<lambda>_. None)\<rparr>
         (JString '' 123n '') \<lparr>strict = Some False\<rparr> = Inr (JString '' 123n '')
   \<and> snd (synapse_part \<lparr>JSON_parse = ecma_JSON_parse, BigInt = (\<lambda>_. None)\<rparr>
         (JString '' 123n '') \<lparr>strict = Some False\<rparr>) = Inr (JString '' 123n '')"
proof -
  let ?o = "\<lparr>strict = Some False\<rparr>"
  let ?rj = "\<lparr>JSON_parse = ecma_JSON_parse, BigInt = (\<lambda>_. None)\<rparr>"
  have h: "strict ?o = None \<or> strict ?o = Some False" by simp
  have a1: "branch_index (trim '' [1,2 '') = JSONCandidate" by code_simp
  have a2: "JSON_parse ecma '' [1,2 '' = None" by code_simp
  have a3: "branch_part (trim '' [1,2 '') = JSONCandidate" by code_simp
  have a4: "JSON_parse ecma (trim '' [1,2 '') = None" by code_simp
  have b1: "branch_index (trim '' hello '') = Fallback" by code_simp
  have b2: "branch_part (trim '' hello '') = Fallback" by code_simp
  have c1: "branch_index (trim '' 123n '') = BigIntLiteral" by code_simp
  have c2: "branch_part (trim '' 123n '') = BigIntLiteral" by code_simp
  have c3: "BigInt ?rj (slice (trim '' 123n '') 0 (- 1)) = None" by simp
  from lenient_never_raises [OF h, of ecma _ "'' [1,2 ''"] a1 a2 a3 a4
  have ra: "synapse_index ecma (JString '' [1,2 '') ?o = Inr (JString '' [1,2 '')"
    "snd (synapse_part ecma (JString '' [1,2 '') ?o) = Inr (JString '' [1,2 '')"
    by simp_all
  from lenient_never_raises [OF h, of ecma _ "'' hello ''"] b1 b2
  have rb: "synapse_index ecma (JString '' hello '') ?o = Inr (JString '' hello '')"
    "snd (synapse_part ecma (JString '' hello '') ?o) = Inr (JString '' hello '')"
    by simp_all
  from lenient_never_raises [OF h, of ?rj _ "'' 123n ''"] c1 c2 c3
  have rc: "synapse_index ?rj (JString '' 123n '') ?o = Inr (JString '' 123n '')"
    "snd (synapse_part ?rj (JString '' 123n '') ?o) = Inr (JString '' 123n '')"
    by simp_all
  from h ra rb rc show ?thesis by simp
qed

text \<open>
  C4. \<open>coerce("null")\<close> and \<open>coerce("undefined")\<close> in lenient mode should return the
  absent value \<open>undefined\<close> through the table of known values. In \<^verbatim>\<open>src/src/index.ts\<close> the
  table maps both keys to \<open>undefined\<close>, which the test \<^verbatim>\<open>knownValue !== undefined\<close> takes
  for a miss: the input string comes back.
\<close>

theorem index_null_undefined_returned_as_text:
  "synapse_index ecma (JString ''null'') \<lparr>strict = None\<rparr> = Inr (JString ''null'')
   \<and> synapse_index ecma (JString ''undefined'') \<lparr>strict = None\<rparr> = Inr (JString ''undefined'')"
  by code_simp

text \<open>
  The version of \<^verbatim>\<open>src/unnamed/part_000\<close> tests the two spellings by name and returns
  \<open>undefined\<close>.
\<close>

lemma part_null_undefined_absent:
  "synapse_part ecma (JString ''null'') \<lparr>strict = None\<rparr> = ([], Inr JUndefined)
   \<and> synapse_part ecma (JString ''undefined'') \<lparr>strict = None\<rparr> = ([], Inr JUndefined)"
  by code_simp

text \<open>
  C5. \<open>coerce("NaN")\<close>, \<open>coerce("Infinity")\<close> and \<open>coerce("-Infinity")\<close> in lenient mode
  should return the numeric sentinels through the table of known values. The version of
  \<^verbatim>\<open>src/unnamed/part_000\<close> looks the lower-cased text up in a table whose keys
  \<open>NaN\<close>, \<open>Infinity\<close> and \<open>-Infinity\<close> have capitals, so the three entries are never
  found and the input string comes back.
\<close>

theorem part_numeric_sentinels_returned_as_text:
  "synapse_part ecma (JString ''NaN'') \<lparr>strict = None\<rparr> = ([], Inr (JString ''NaN''))
   \<and> synapse_part ecma (JString ''Infinity'') \<lparr>strict = None\<rparr> = ([], Inr (JString ''Infinity''))
   \<and> synapse_part ecma (JString ''-Infinity'') \<lparr>strict = None\<rparr> = ([], Inr (JString ''-Infinity''))"
  by code_simp

theorem part_numeric_sentinels_returned_as_text_witness:
  "toLowerCase ''NaN'' = ''nan''
   \<and> Map_get KNOWN_VALUES ''nan'' = JUndefined
   \<and> Map_get KNOWN_VALUES ''NaN'' = JNumber NaN
   \<and> snd (synapse_part ecma (JString ''NaN'') \<lparr>strict = None\<rparr>) = Inr (JString ''NaN'')"
proof -
  have a: "toLowerCase ''NaN'' = ''nan''" by code_simp
  have b: "Map_get KNOWN_VALUES ''nan'' = JUndefined" by code_simp
  have c: "Map_get KNOWN_VALUES ''NaN'' = JNumber NaN" by code_simp
  from part_numeric_sentinels_returned_as_text a b c show ?thesis by simp
qed

text \<open>
  \<^verbatim>\<open>src/src/index.ts\<close> looks the text up as it is and returns the sentinels.
\<close>

lemma index_numeric_sentinels:
  "synapse_index ecma (JString ''NaN'') \<lparr>strict = None\<rparr> = Inr (JNumber NaN)
   \<and> synapse_index ecma (JString ''Infinity'') \<lparr>strict = None\<rparr> = Inr (JNumber PosInfinity)
   \<and> synapse_index ecma (JString ''-Infinity'') \<lparr>strict = None\<rparr> = Inr (JNumber NegInfinity)"
  by code_simp

text \<open>
  C6. A trimmed text longer than two characters that starts and ends with a double quote
  should come back as the text between the quotes, verbatim. The version of
  \<^verbatim>\<open>src/unnamed/part_000\<close> hands every text that starts with a quote to \<open>JSON.parse\<close>,
  which decodes the escapes: the six characters \<^verbatim>\<open>"a\nb"\<close> give the three characters
  a, line feed, b.
\<close>

theorem part_quoted_text_unescaped:
  \<open>length (''"a'' @ [BSL] @ ''nb"'') = 6
   \<and> 2 < length (trim (''"a'' @ [BSL] @ ''nb"''))
   \<and> hd (trim (''"a'' @ [BSL] @ ''nb"'')) = CHR ''"''
   \<and> last (trim (''"a'' @ [BSL] @ ''nb"'')) = CHR ''"''
   \<and> synapse_part ecma (JString (''"a'' @ [BSL] @ ''nb"'')) \<lparr>strict = None\<rparr>
       = ([], Inr (JString [CHR ''a'', CHR 0x0A, CHR ''b'']))
   \<and> JString [CHR ''a'', CHR 0x0A, CHR ''b''] \<noteq> JString [CHR ''a'', BSL, CHR ''n'', CHR ''b'']\<close>
  by code_simp

text \<open>
  C6, as amended. In \<^verbatim>\<open>src/src/index.ts\<close>, for every runtime and every options record,
  a trimmed text longer than two characters that starts and ends with a double quote is
  coerced to the text between the two quotes, unchanged.
\<close>

theorem index_quoted_text_verbatim:
  assumes "2 < length (trim text)"
    and \<open>hd (trim text) = CHR ''"''\<close> and \<open>last (trim text) = CHR ''"''\<close>
  shows "synapse_index rt (JString text) options = Inr (JString (butlast (tl (trim text))))"
proof -
  from assms(1) have ne: "trim text \<noteq> []" by auto
  show ?thesis
    using assms ne
    by (simp add: synapse_index_def Let_def known_miss_quote codePointAt_0_quote
        codePointAt_last_quote slice_inner)
qed

theorem index_quoted_text_verbatim_witness:
  \<open>2 < length (trim (''"a'' @ [BSL] @ ''nb"''))
   \<and> hd (trim (''"a'' @ [BSL] @ ''nb"'')) = CHR ''"''
   \<and> last (trim (''"a'' @ [BSL] @ ''nb"'')) = CHR ''"''
   \<and> synapse_index ecma (JString (''"a'' @ [BSL] @ ''nb"'')) \<lparr>strict = None\<rparr>
       = Inr (JString [CHR ''a'', BSL, CHR ''n'', CHR ''b''])
   \<and> length [CHR ''a'', BSL, CHR ''n'', CHR ''b''] = 4\<close>
proof -
  let ?text = \<open>''"a'' @ [BSL] @ ''nb"''\<close>
  have h1: "2 < length (trim ?text)" by code_simp
  have h2: \<open>hd (trim ?text) = CHR ''"''\<close> by code_simp
  have h3: \<open>last (trim ?text) = CHR ''"''\<close> by code_simp
  have b: "butlast (tl (trim ?text)) = [CHR ''a'', BSL, CHR ''n'', CHR ''b'']" by code_simp
  from index_quoted_text_verbatim [OF h1 h2 h3, of ecma "\<lparr>strict = None\<rparr>"] h1 h2 h3 b
  show ?thesis by simp
qed

text \<open>
  C7. \<open>coerceStrict("12x3n")\<close> should raise the bigint-rejection error. The text does not
  match \<^verbatim>\<open>/^-?\d+n$/i\<close>, so neither version reaches \<open>BigInt\<close>: the text starts with a
  digit, goes to the structural-JSON branch, and the error raised is the parser's.
\<close>

theorem strict_12x3n_parser_error:
  "\<not> BIGINT_REGEX_test ''12x3n''
   \<and> safesynapse_index ecma (JString ''12x3n'') \<lparr>strict = None\<rparr> = Inl RuntimeSyntaxError
   \<and> safesynapse_index ecma (JString ''12x3n'') \<lparr>strict = None\<rparr> \<noteq> Inl (InvalidBigInt ''12x3n'')
   \<and> safesynapse_part ecma (JString ''12x3n'') \<lparr>strict = None\<rparr> = ([], Inl RuntimeSyntaxError)
   \<and> snd (safesynapse_part ecma (JString ''12x3n'') \<lparr>strict = None\<rparr>) \<noteq> Inl (InvalidBigInt ''12x3n'')"
  by code_simp

text \<open>
  C7, as amended. In strict mode the bigint-rejection error is raised exactly when the
  trimmed text matches the bigint pattern and the runtime's \<open>BigInt\<close> refuses its digit
  run, and it names the trimmed text; a \<open>BigInt\<close> that follows ECMA-262 refuses no such
  digit run, so with it the error is never raised. \<open>coerceStrict("12x3n")\<close> raises the
  parser's syntax error.
\<close>

theorem strict_bigint_rejection:
  assumes "is_strict options"
  shows "(synapse_index rt (JString text) options = Inl (InvalidBigInt x))
           = (x = trim text \<and> BIGINT_REGEX_test (trim text)
              \<and> BigInt rt (slice (trim text) 0 (- 1)) = None)
       \<and> (snd (synapse_part rt (JString text) options) = Inl (InvalidBigInt x))
           = (x = trim text \<and> BIGINT_REGEX_test (trim text)
              \<and> BigInt rt (slice (trim text) 0 (- 1)) = None)
       \<and> synapse_index ecma (JString text) options \<noteq> Inl (InvalidBigInt x)
       \<and> snd (synapse_part ecma (JString text) options) \<noteq> Inl (InvalidBigInt x)
       \<and> safesynapse_index ecma (JString ''12x3n'') \<lparr>strict = None\<rparr> = Inl RuntimeSyntaxError
       \<and> snd (safesynapse_part ecma (JString ''12x3n'') \<lparr>strict = None\<rparr>) = Inl RuntimeSyntaxError"
proof -
  have i: "(synapse_index r (JString text) options = Inl (InvalidBigInt x))
           = (x = trim text \<and> BIGINT_REGEX_test (trim text)
              \<and> BigInt r (slice (trim text) 0 (- 1)) = None)" for r
    using assms
    by (cases "branch_index (trim text)")
      (auto simp: synapse_index_by_branch branch_index_bigint [symmetric] split: option.splits)
  have p: "(snd (synapse_part r (JString text) options) = Inl (InvalidBigInt x))
           = (x = trim text \<and> BIGINT_REGEX_test (trim text)
              \<and> BigInt r (slice (trim text) 0 (- 1)) = None)" for r
    using assms
    by (cases "branch_part (trim text)")
      (auto simp: synapse_part_by_branch branch_part_bigint [symmetric] split: option.splits)
  have a: "\<not> (BIGINT_REGEX_test (trim text) \<and> BigInt ecma (slice (trim text) 0 (- 1)) = None)"
    using ecma_BigInt_accepts [of "trim text"] by (auto simp: ecma_def)
  from a have n1: "synapse_index ecma (JString text) options \<noteq> Inl (InvalidBigInt x)"
    by (simp only: i) blast
  from a have n2: "snd (synapse_part ecma (JString text) options) \<noteq> Inl (InvalidBigInt x)"
    by (simp only: p) blast
  have e1: "safesynapse_index ecma (JString ''12x3n'') \<lparr>strict = None\<rparr> = Inl RuntimeSyntaxError"
    by code_simp
  have e2: "snd (safesynapse_part ecma (JString ''12x3n'') \<lparr>strict = None\<rparr>) = Inl RuntimeSyntaxError"
    by code_simp
  from i [of rt] p [of rt] n1 n2 e1 e2 show ?thesis by (simp only: simp_thms)
qed

theorem strict_bigint_rejection_witness:
  "is_strict \<lparr>strict = Some True\<rparr>
   \<and> BIGINT_REGEX_test (trim '' 123n '')
   \<and> synapse_index \<lparr>JSON_parse = ecma_JSON_parse, BigInt = (\<lambda>_. None)\<rparr>
         (JString '' 123n '') \<lparr>strict = Some True\<rparr> = Inl (InvalidBigInt ''123n'')
   \<and> snd (synapse_part \<lparr>JSON_parse = ecma_JSON_parse, BigInt = (\<lambda>_. None)\<rparr>
         (JString '' 123n '') \<lparr>strict = Some True\<rparr>) = Inl (InvalidBigInt ''123n'')"
proof -
  let ?rt = "\<lparr>JSON_parse = ecma_JSON_parse, BigInt = (\<lambda>_. None)\<rparr>"
  have h: "is_strict \<lparr>strict = Some True\<rparr>" by (simp add: is_strict_def)
  have t: "trim '' 123n '' = ''123n''" by code_simp
  have b: "BIGINT_REGEX_test ''123n''" by code_simp
  from strict_bigint_rejection [OF h, of ?rt "'' 123n ''" "''123n''"] h t b
  show ?thesis by simp
qed

text \<open>
  C8. For every input that is not a string and every options record, both versions return
  the input itself: the same value, of the same type (and the version of
  \<^verbatim>\<open>src/unnamed/part_000\<close> writes nothing to the console).
\<close>

theorem non_string_identity:
  assumes "\<forall>text. value \<noteq> JString text"
  shows "synapse_index rt value options = Inr value
       \<and> synapse_part rt value options = ([], Inr value)"
  using assms by (cases "value") (simp_all add: synapse_index_def synapse_part_def)

theorem non_string_identity_witness:
  "(\<forall>text. JArray [JNumber (Finite 1 0), JNull] \<noteq> JString text)
   \<and> synapse_index ecma (JArray [JNumber (Finite 1 0), JNull]) \<lparr>strict = Some True\<rparr>
       = Inr (JArray [JNumber (Finite 1 0), JNull])
   \<and> synapse_part ecma (JArray [JNumber (Finite 1 0), JNull]) \<lparr>strict = Some True\<rparr>
       = ([], Inr (JArray [JNumber (Finite 1 0), JNull]))"
  using non_string_identity [of "JArray [JNumber (Finite 1 0), JNull]" ecma "\<lparr>strict = Some True\<rparr>"]
  by simp

text \<open>
  C9. The key-stripping walk removes the keys named \<open>__proto__\<close> and no other: every other
  key of an object, \<open>constructor\<close> among them, keeps its place with its value walked in
  turn. The text \<^verbatim>\<open>{"constructor":{"x":1}}\<close> matches the detection pattern, which in
  \<^verbatim>\<open>src/unnamed/part_000\<close> gives a warning in lenient mode and the pollution error in
  strict mode, and the lenient result still has the key \<open>constructor\<close> with its value.
\<close>

theorem clean_removes_only_proto:
  \<open>map_of (cleanKeys props) k =
     (if k = ''__proto__'' then None else map_option cleanObject (map_of props k))
   \<and> (proto_free v \<longrightarrow> cleanObject v = v)
   \<and> checkPrototypePollution ''{"constructor":{"x":1}}''
   \<and> synapse_part ecma (JString ''{"constructor":{"x":1}}'') \<lparr>strict = None\<rparr>
       = ([''[synapse] Possible prototype pollution''],
          Inr (JObject [(''constructor'', JObject [(''x'', JNumber (Finite 1 0))])]))
   \<and> snd (safesynapse_part ecma (JString ''{"constructor":{"x":1}}'') \<lparr>strict = None\<rparr>)
       = Inl PossiblePrototypePollution
   \<and> synapse_index ecma (JString ''{"constructor":{"x":1}}'') \<lparr>strict = None\<rparr>
       = Inr (JObject [(''constructor'', JObject [(''x'', JNumber (Finite 1 0))])])\<close>
proof -
  let ?text = \<open>''{"constructor":{"x":1}}''\<close>
  have a: "checkPrototypePollution ?text" by code_simp
  have b: "synapse_part ecma (JString ?text) \<lparr>strict = None\<rparr>
       = ([''[synapse] Possible prototype pollution''],
          Inr (JObject [(''constructor'', JObject [(''x'', JNumber (Finite 1 0))])]))"
    by code_simp
  have c: "snd (safesynapse_part ecma (JString ?text) \<lparr>strict = None\<rparr>)
       = Inl PossiblePrototypePollution"
    by code_simp
  have d: "synapse_index ecma (JString ?text) \<lparr>strict = None\<rparr>
       = Inr (JObject [(''constructor'', JObject [(''x'', JNumber (Finite 1 0))])])"
    by code_simp
  have e: "proto_free v \<longrightarrow> cleanObject v = v" by (simp add: clean_id)
  from a b c d e show ?thesis by (simp only: map_of_cleanKeys simp_thms)
qed

theorem clean_removes_only_proto_witness:
  "map_of (cleanKeys [(''__proto__'', JNull), (''constructor'', JObject [(''__proto__'', JNull), (''x'', JNull)])])
     ''constructor'' = Some (JObject [(''x'', JNull)])
   \<and> map_of (cleanKeys [(''__proto__'', JNull), (''constructor'', JObject [(''__proto__'', JNull), (''x'', JNull)])])
     ''__proto__'' = None
   \<and> proto_free (JObject [(''constructor'', JObject [(''x'', JNull)])])
   \<and> cleanObject (JObject [(''constructor'', JObject [(''x'', JNull)])])
       = JObject [(''constructor'', JObject [(''x'', JNull)])]"
proof -
  let ?props = "[(''__proto__'', JNull),
                 (''constructor'', JObject [(''__proto__'', JNull), (''x'', JNull)])]"
  let ?v = "JObject [(''constructor'', JObject [(''x'', JNull)])]"
  have f: "proto_free ?v" by simp
  from clean_removes_only_proto [of ?props "''constructor''" ?v]
    clean_removes_only_proto [of ?props "''__proto__''" ?v] f
  show ?thesis by simp
qed

text \<open>
  C10. In \<^verbatim>\<open>src/src/index.ts\<close>, an input whose trimmed form has exactly two characters, the
  first a double quote, is coerced to the empty string whatever the second character is,
  in lenient and in strict mode, whatever the runtime's parser would do with it.
\<close>

theorem index_two_chars_quote_empty:
  assumes "length (trim text) = 2" and "hd (trim text) = CHR 0x22"
  shows "synapse_index rt (JString text) options = Inr (JString [])
       \<and> safesynapse_index rt (JString text) options = Inr (JString [])"
proof -
  from assms(1) have ne: "trim text \<noteq> []" by auto
  have "synapse_index rt (JString text) opts = Inr (JString [])" for opts
    using assms ne
    by (simp add: synapse_index_def Let_def known_miss_quote codePointAt_0_quote)
  then show ?thesis by (simp add: safesynapse_index_def)
qed

theorem index_two_chars_quote_empty_witness:
  \<open>length (trim ''"a'') = 2 \<and> hd (trim ''"a'') = CHR 0x22
   \<and> synapse_index ecma (JString ''"a'') \<lparr>strict = None\<rparr> = Inr (JString [])
   \<and> safesynapse_index ecma (JString ''"a'') \<lparr>strict = None\<rparr> = Inr (JString [])\<close>
proof -
  have h1: \<open>length (trim ''"a'') = 2\<close> by code_simp
  have h2: \<open>hd (trim ''"a'') = CHR 0x22\<close> by code_simp
  from index_two_chars_quote_empty [OF h1 h2, of ecma "\<lparr>strict = None\<rparr>"] h1 h2
  show ?thesis by simp
qed

end
